theory Spec2Isabelle
  imports Main "HOL-Library.Char_ord" "HOL-Library.List_Lexorder"
begin

section \<open>Data model\<close>

text \<open>
  Hex quantities (\<open>block.number\<close>, \<open>block.timestamp\<close>, \<open>trace.value\<close>, indices) are
  read by the source only through \<open>hexToNumber\<close> / \<open>hexToBigInt\<close>; the records below
  hold the decoded natural number. Hashes, addresses, topics and call data stay strings.
\<close>

type_synonym Hash = string
type_synonym Address = string
type_synonym Hex = string

text \<open>A filter value of type \<open>T | T[] | null | undefined\<close>.\<close>

datatype FilterValue = Absent | Single string | Many "string list"

text \<open>\<open>LogFactory\<close>: \<open>address\<close> is one address or an array of them.\<close>

datatype OneOrMany = One Address | Several "Address list"

record LogFactory =
  fac_chainId :: nat
  fac_address :: OneOrMany
  fac_eventSelector :: Hex
  fac_childAddressLocation :: string

text \<open>
  An address constraint is a filter value or a factory reference;
  \<open>isAddressFactory\<close> tells the two apart.
\<close>

datatype AddressSpec = Plain FilterValue | FactoryRef LogFactory

fun isAddressFactory :: "AddressSpec \<Rightarrow> bool" where
  "isAddressFactory (FactoryRef _) = True"
| "isAddressFactory (Plain _) = False"

fun plainValue :: "AddressSpec \<Rightarrow> FilterValue" where
  "plainValue (Plain v) = v"
| "plainValue (FactoryRef _) = Absent"

record LogFilter =
  lf_chainId :: nat
  lf_address :: AddressSpec
  lf_topic0 :: FilterValue
  lf_topic1 :: FilterValue
  lf_topic2 :: FilterValue
  lf_topic3 :: FilterValue
  lf_fromBlock :: "nat option"
  lf_toBlock :: "nat option"

record TransactionFilter =
  xf_chainId :: nat
  xf_fromAddress :: AddressSpec
  xf_toAddress :: AddressSpec
  xf_includeReverted :: bool
  xf_fromBlock :: "nat option"
  xf_toBlock :: "nat option"

record TraceFilter =
  cf_chainId :: nat
  cf_fromAddress :: AddressSpec
  cf_toAddress :: AddressSpec
  cf_callType :: string
  cf_functionSelector :: FilterValue
  cf_fromBlock :: "nat option"
  cf_toBlock :: "nat option"

record TransferFilter =
  rf_chainId :: nat
  rf_fromAddress :: AddressSpec
  rf_toAddress :: AddressSpec
  rf_fromBlock :: "nat option"
  rf_toBlock :: "nat option"

record BlockFilter =
  bf_chainId :: nat
  bf_interval :: nat
  bf_offset :: nat
  bf_fromBlock :: "nat option"
  bf_toBlock :: "nat option"

record SyncTransaction =
  tx_hash :: Hash
  tx_from :: Address
  tx_to :: "Address option"
  tx_transactionIndex :: nat

record SyncLog =
  log_address :: Address
  log_topics :: "Hex list"
  log_data :: Hex
  log_blockHash :: Hash
  log_blockNumber :: nat
  log_transactionHash :: Hash
  log_transactionIndex :: nat
  log_logIndex :: nat

text \<open>The inner \<open>trace\<close> object of a \<open>SyncTrace\<close>.\<close>

record CallFrame =
  fr_type :: string
  fr_from :: Address
  fr_to :: "Address option"
  fr_input :: Hex
  fr_value :: "nat option"

record SyncTrace =
  tr_trace :: CallFrame
  tr_transactionHash :: Hash
  tr_position :: nat

record SyncBlock =
  blk_number :: nat
  blk_hash :: Hash
  blk_parentHash :: Hash
  blk_timestamp :: nat
  blk_logsBloom :: Hex
  blk_transactions :: "SyncTransaction list"

section \<open>Filter engine\<close>

text \<open>
  Modelled from the spec: \<open>toLowerCase\<close> of \<open>utils/lowercase.js\<close> (not among the
  sources) is lowercase normalization; here on the ASCII letters of hex strings.
\<close>

definition lowerChar :: "char \<Rightarrow> char" where
  "lowerChar c =
     (let n = (of_char c :: nat) in if 65 \<le> n \<and> n \<le> 90 then char_of (n + 32) else c)"

definition toLowerCase :: "string \<Rightarrow> string" where
  "toLowerCase s = map lowerChar s"

text \<open>
  \<open>isValueMatched\<close>: the array test and the single test are both strict equalities
  between the filter value as given and the lowercased event value.
\<close>

fun isValueMatched :: "FilterValue \<Rightarrow> string option \<Rightarrow> bool" where
  "isValueMatched Absent _ = True"
| "isValueMatched _ None = False"
| "isValueMatched (Many vs) (Some e) = (\<exists>v \<in> set vs. v = toLowerCase e)"
| "isValueMatched (Single v) (Some e) = (v = toLowerCase e)"

definition inRange :: "nat option \<Rightarrow> nat option \<Rightarrow> nat \<Rightarrow> bool" where
  "inRange fromBlock toBlock n =
     (\<not> (n < (case fromBlock of None \<Rightarrow> 0 | Some a \<Rightarrow> a)
         \<or> (case toBlock of None \<Rightarrow> False | Some b \<Rightarrow> n > b)))"

definition factoryAddresses :: "LogFactory \<Rightarrow> Address list" where
  "factoryAddresses f = (case fac_address f of One a \<Rightarrow> [a] | Several as \<Rightarrow> as)"

text \<open>\<open>log.topics[i]\<close>: undefined beyond the end of the array.\<close>

definition topicAt :: "SyncLog \<Rightarrow> nat \<Rightarrow> Hex option" where
  "topicAt l i = (if i < length (log_topics l) then Some (log_topics l ! i) else None)"

definition isLogFactoryMatched :: "LogFactory \<Rightarrow> SyncLog \<Rightarrow> bool" where
  "isLogFactoryMatched f l =
     (if (\<forall>a \<in> set (factoryAddresses f). a \<noteq> toLowerCase (log_address l)) then False
      else if length (log_topics l) = 0 then False
      else if fac_eventSelector f \<noteq> toLowerCase (hd (log_topics l)) then False
      else True)"

definition isLogFilterMatched :: "LogFilter \<Rightarrow> SyncBlock \<Rightarrow> SyncLog \<Rightarrow> bool" where
  "isLogFilterMatched f b l =
     (if \<not> inRange (lf_fromBlock f) (lf_toBlock f) (blk_number b) then False
      else if \<not> isValueMatched (lf_topic0 f) (topicAt l 0) then False
      else if \<not> isValueMatched (lf_topic1 f) (topicAt l 1) then False
      else if \<not> isValueMatched (lf_topic2 f) (topicAt l 2) then False
      else if \<not> isValueMatched (lf_topic3 f) (topicAt l 3) then False
      else if \<not> isAddressFactory (lf_address f)
              \<and> \<not> isValueMatched (plainValue (lf_address f)) (Some (log_address l))
           then False
      else True)"

text \<open>
  \<open>isTransactionFilterMatched\<close>. The \<open>toAddress\<close> test is guarded by the truthiness of
  \<open>transaction.to\<close>: null and the empty string are falsy.
\<close>

definition truthy :: "string option \<Rightarrow> bool" where
  "truthy v = (case v of None \<Rightarrow> False | Some s \<Rightarrow> s \<noteq> [])"

definition isTransactionFilterMatched :: "TransactionFilter \<Rightarrow> nat \<Rightarrow> SyncTransaction \<Rightarrow> bool" where
  "isTransactionFilterMatched f blockNumber t =
     (if \<not> inRange (xf_fromBlock f) (xf_toBlock f) blockNumber then False
      else if \<not> isAddressFactory (xf_fromAddress f)
              \<and> \<not> isValueMatched (plainValue (xf_fromAddress f)) (Some (tx_from t))
           then False
      else if \<not> isAddressFactory (xf_toAddress f)
              \<and> truthy (tx_to t)
              \<and> \<not> isValueMatched (plainValue (xf_toAddress f)) (tx_to t)
           then False
      else True)"

definition isTraceFilterMatched :: "TraceFilter \<Rightarrow> nat \<Rightarrow> CallFrame \<Rightarrow> bool" where
  "isTraceFilterMatched f blockNumber c =
     (if \<not> inRange (cf_fromBlock f) (cf_toBlock f) blockNumber then False
      else if \<not> isAddressFactory (cf_fromAddress f)
              \<and> \<not> isValueMatched (plainValue (cf_fromAddress f)) (Some (fr_from c))
           then False
      else if \<not> isAddressFactory (cf_toAddress f)
              \<and> \<not> isValueMatched (plainValue (cf_toAddress f)) (fr_to c)
           then False
      else if cf_callType f \<noteq> fr_type c then False
      else if \<not> isValueMatched (cf_functionSelector f) (Some (take 10 (fr_input c))) then False
      else True)"

definition isTransferFilterMatched :: "TransferFilter \<Rightarrow> nat \<Rightarrow> CallFrame \<Rightarrow> bool" where
  "isTransferFilterMatched f blockNumber c =
     (if \<not> inRange (rf_fromBlock f) (rf_toBlock f) blockNumber then False
      else if fr_value c = None \<or> fr_value c = Some 0 then False
      else if \<not> isAddressFactory (rf_fromAddress f)
              \<and> \<not> isValueMatched (plainValue (rf_fromAddress f)) (Some (fr_from c))
           then False
      else if \<not> isAddressFactory (rf_toAddress f)
              \<and> \<not> isValueMatched (plainValue (rf_toAddress f)) (fr_to c)
           then False
      else True)"

text \<open>
  \<open>isBlockFilterMatched\<close>: \<open>(number - offset) % interval === 0\<close> on JavaScript numbers;
  the difference may be negative, and a zero interval gives NaN, which is not 0.
\<close>

definition isBlockFilterMatched :: "BlockFilter \<Rightarrow> SyncBlock \<Rightarrow> bool" where
  "isBlockFilterMatched f b =
     (if \<not> inRange (bf_fromBlock f) (bf_toBlock f) (blk_number b) then False
      else bf_interval f \<noteq> 0
           \<and> (int (blk_number b) - int (bf_offset f)) mod int (bf_interval f) = 0)"

section \<open>Realtime sync: configuration, collaborators and state\<close>

record LightBlock =
  lb_number :: nat
  lb_hash :: Hash
  lb_parentHash :: Hash
  lb_timestamp :: nat

text \<open>
  Modelled from the spec: \<open>syncBlockToLightBlock\<close> of \<open>sync/index.js\<close> (not among the
  sources) keeps the minimal record \<open>{number, hash, parentHash, timestamp}\<close>.
\<close>

definition syncBlockToLightBlock :: "SyncBlock \<Rightarrow> LightBlock" where
  "syncBlockToLightBlock b =
     \<lparr>lb_number = blk_number b, lb_hash = blk_hash b,
      lb_parentHash = blk_parentHash b, lb_timestamp = blk_timestamp b\<rparr>"

record SyncTransactionReceipt =
  rc_transactionHash :: Hash
  rc_status :: Hex

text \<open>
  \<open>Source\<close>: a contract source carries a log or a trace filter, an account source a
  transaction or a transfer filter, a block source a block filter.
\<close>

datatype Source =
    ContractLog LogFilter
  | ContractTrace TraceFilter
  | AccountTransaction TransactionFilter
  | AccountTransfer TransferFilter
  | BlockSource BlockFilter

datatype Filter =
    LogF LogFilter
  | TraceF TraceFilter
  | TransactionF TransactionFilter
  | TransferF TransferFilter
  | BlockF BlockFilter

fun sourceFilter :: "Source \<Rightarrow> Filter" where
  "sourceFilter (ContractLog f) = LogF f"
| "sourceFilter (ContractTrace f) = TraceF f"
| "sourceFilter (AccountTransaction f) = TransactionF f"
| "sourceFilter (AccountTransfer f) = TransferF f"
| "sourceFilter (BlockSource f) = BlockF f"

text \<open>
  The arguments of \<open>createRealtimeSync\<close> that the pipeline reads, and the helpers it
  imports from modules that are not among the sources (\<open>getChildAddress\<close> of
  \<open>sync/source.js\<close>, \<open>isFilterInBloom\<close> and \<open>zeroLogsBloom\<close> of \<open>bloom.js\<close>), taken as
  parameters.
\<close>

record Config =
  sources :: "Source list"
  finalityBlockCount :: nat
  getChildAddress :: "SyncLog \<Rightarrow> LogFactory \<Rightarrow> Address"
  isFilterInBloom :: "SyncBlock \<Rightarrow> LogFilter \<Rightarrow> bool"
  zeroLogsBloom :: Hex

text \<open>What the source throws.\<close>

datatype Error =
    RpcError
  | UnrecoverableReorg nat
  | InvalidLogsResponse
  | LogBlockHashMismatch
  | InvalidTraceResponse
  | TraceTransactionMissing Hash
  | TransactionMissing Hash
  | PendingFinalizedBlockUndefined
  | TransactionUndefined Hash

text \<open>
  The request queue: every request either answers or throws (\<open>None\<close>). One such record
  stands for the answers given during one poll or one worker run. When several fetches
  started together fail, the timing of the answers decides which failure comes first;
  \<open>settlesFirst\<close> stands for that timing.
\<close>

record Rpc =
  eth_getBlockByHash :: "Hash \<Rightarrow> SyncBlock option"
  eth_getBlockByNumber :: "nat \<Rightarrow> SyncBlock option"
  eth_getLatestBlock :: "SyncBlock option"
  eth_getLogs :: "Hash \<Rightarrow> SyncLog list option"
  debug_traceBlockByHash :: "Hash \<Rightarrow> SyncTrace list option"
  eth_getTransactionReceipt :: "Hash \<Rightarrow> SyncTransactionReceipt option"
  settlesFirst :: "Error list \<Rightarrow> Error"

text \<open>A queue item: \<open>BlockWithEventData\<close> without \<open>filters\<close>.\<close>

record QueueItem =
  it_block :: SyncBlock
  it_logs :: "SyncLog list"
  it_factoryLogs :: "SyncLog list"
  it_traces :: "SyncTrace list"
  it_transactions :: "SyncTransaction list"
  it_transactionReceipts :: "SyncTransactionReceipt list"

datatype RealtimeSyncEvent =
    BlockEvent "Filter set" QueueItem
  | FinalizeEvent LightBlock
  | ReorgEvent LightBlock "LightBlock list"

text \<open>What the pipeline hands to its two callbacks, in call order.\<close>

datatype Output = OnEvent RealtimeSyncEvent | OnFatalError Error

text \<open>
  The closure state of \<open>createRealtimeSync\<close>. The two \<open>Map<Factory, Set<Address>>\<close>
  are read as functions: a factory without an entry reads as the empty set. The source
  dereferences them only at registered factories (\<open>get(filter)!\<close>), for which the
  constructor and \<open>start\<close>'s caller provide a set each. \<open>emitted\<close> records the calls of
  \<open>onEvent\<close> and \<open>onFatalError\<close>, both taken to return normally.
\<close>

record State =
  isKilled :: bool
  finalizedBlock :: LightBlock
  finalizedChildAddresses :: "LogFactory \<Rightarrow> Address set"
  unfinalizedChildAddresses :: "LogFactory \<Rightarrow> Address set"
  factoryLogsPerBlock :: "Hash \<rightharpoonup> SyncLog list"
  unfinalizedBlocks :: "LightBlock list"
  queue :: "QueueItem list"
  consecutiveErrors :: nat
  emitted :: "Output list"

definition ERROR_TIMEOUT :: "nat list" where
  "ERROR_TIMEOUT = [1, 2, 5, 10, 30, 60, 60, 60, 60, 60, 60, 60, 60, 60]"

definition MAX_QUEUED_BLOCKS :: nat where
  "MAX_QUEUED_BLOCKS = 25"

subsection \<open>Filters and factories collected from the sources\<close>

text \<open>
  The constructor's loop. A contract source with a log filter pushes its filter onto
  \<open>logFilters\<close> twice: once in the first \<open>if\<close> chain and once in the \<open>switch\<close>.
\<close>

fun addressFactories :: "AddressSpec \<Rightarrow> LogFactory list" where
  "addressFactories (FactoryRef f) = [f]"
| "addressFactories (Plain _) = []"

fun sourceLogFilters :: "Source \<Rightarrow> LogFilter list" where
  "sourceLogFilters (ContractLog f) = [f, f]"
| "sourceLogFilters _ = []"

fun sourceTraceFilters :: "Source \<Rightarrow> TraceFilter list" where
  "sourceTraceFilters (ContractTrace f) = [f]"
| "sourceTraceFilters _ = []"

fun sourceTransactionFilters :: "Source \<Rightarrow> TransactionFilter list" where
  "sourceTransactionFilters (AccountTransaction f) = [f]"
| "sourceTransactionFilters _ = []"

fun sourceTransferFilters :: "Source \<Rightarrow> TransferFilter list" where
  "sourceTransferFilters (AccountTransfer f) = [f]"
| "sourceTransferFilters _ = []"

fun sourceBlockFilters :: "Source \<Rightarrow> BlockFilter list" where
  "sourceBlockFilters (BlockSource f) = [f]"
| "sourceBlockFilters _ = []"

fun sourceFactories :: "Source \<Rightarrow> LogFactory list" where
  "sourceFactories (ContractTrace f) =
     addressFactories (cf_fromAddress f) @ addressFactories (cf_toAddress f)"
| "sourceFactories (AccountTransaction f) =
     addressFactories (xf_fromAddress f) @ addressFactories (xf_toAddress f)"
| "sourceFactories (AccountTransfer f) =
     addressFactories (rf_fromAddress f) @ addressFactories (rf_toAddress f)"
| "sourceFactories (ContractLog f) = addressFactories (lf_address f)"
| "sourceFactories (BlockSource _) = []"

definition logFilters :: "Config \<Rightarrow> LogFilter list" where
  "logFilters cfg = concat (map sourceLogFilters (sources cfg))"

definition traceFilters :: "Config \<Rightarrow> TraceFilter list" where
  "traceFilters cfg = concat (map sourceTraceFilters (sources cfg))"

definition transactionFilters :: "Config \<Rightarrow> TransactionFilter list" where
  "transactionFilters cfg = concat (map sourceTransactionFilters (sources cfg))"

definition transferFilters :: "Config \<Rightarrow> TransferFilter list" where
  "transferFilters cfg = concat (map sourceTransferFilters (sources cfg))"

definition blockFilters :: "Config \<Rightarrow> BlockFilter list" where
  "blockFilters cfg = concat (map sourceBlockFilters (sources cfg))"

definition factories :: "Config \<Rightarrow> LogFactory list" where
  "factories cfg = concat (map sourceFactories (sources cfg))"

subsection \<open>Child addresses\<close>

text \<open>
  The child addresses that the logs of one list give one factory: the body of every
  \<open>for (const log of ...) if (isLogFactoryMatched({ filter, log })) ...add(getChildAddress(...))\<close>.
\<close>

definition childAddresses :: "Config \<Rightarrow> LogFactory \<Rightarrow> SyncLog list \<Rightarrow> Address set" where
  "childAddresses cfg f ls =
     (\<lambda>l. getChildAddress cfg l f) ` set (filter (isLogFactoryMatched f) ls)"

text \<open>The same over the cached factory logs of a list of blocks; a block without entry gives none.\<close>

definition cachedLogs :: "(Hash \<rightharpoonup> SyncLog list) \<Rightarrow> LightBlock \<Rightarrow> SyncLog list" where
  "cachedLogs cache lb = (case cache (lb_hash lb) of None \<Rightarrow> [] | Some ls \<Rightarrow> ls)"

definition blocksChildAddresses ::
  "Config \<Rightarrow> (Hash \<rightharpoonup> SyncLog list) \<Rightarrow> LogFactory \<Rightarrow> LightBlock list \<Rightarrow> Address set" where
  "blocksChildAddresses cfg cache f lbs =
     \<Union> (set (map (\<lambda>lb. childAddresses cfg f (cachedLogs cache lb)) lbs))"

text \<open>\<open>unfinalizedChildAddresses.clear()\<close> followed by the loop that fills it again.\<close>

definition recomputeUnfinalized ::
  "Config \<Rightarrow> (Hash \<rightharpoonup> SyncLog list) \<Rightarrow> LightBlock list \<Rightarrow> LogFactory \<Rightarrow> Address set" where
  "recomputeUnfinalized cfg cache lbs =
     (\<lambda>f. if f \<in> set (factories cfg) then blocksChildAddresses cfg cache f lbs else {})"

text \<open>\<open>factoryLogsPerBlock.delete(hash)\<close> for every block of a list.\<close>

definition deleteBlocks :: "(Hash \<rightharpoonup> SyncLog list) \<Rightarrow> LightBlock list \<Rightarrow> (Hash \<rightharpoonup> SyncLog list)" where
  "deleteBlocks cache lbs = (\<lambda>h. if h \<in> lb_hash ` set lbs then None else cache h)"

definition getLatestUnfinalizedBlock :: "State \<Rightarrow> LightBlock" where
  "getLatestUnfinalizedBlock s =
     (if length (unfinalizedBlocks s) = 0 then finalizedBlock s else last (unfinalizedBlocks s))"

definition onEvent :: "RealtimeSyncEvent \<Rightarrow> State \<Rightarrow> State" where
  "onEvent e s = s\<lparr>emitted := emitted s @ [OnEvent e]\<rparr>"

section \<open>Happy path: \<open>handleBlock\<close>\<close>

text \<open>
  ``Update \<open>unfinalizedChildAddresses\<close>'': for every factory log and every registered
  factory that the log matches, the child address joins the factory's set.
\<close>

definition addChildAddresses ::
  "Config \<Rightarrow> SyncLog list \<Rightarrow> (LogFactory \<Rightarrow> Address set) \<Rightarrow> LogFactory \<Rightarrow> Address set" where
  "addChildAddresses cfg ls m =
     (\<lambda>f. if f \<in> set (factories cfg) then m f \<union> childAddresses cfg f ls else m f)"

text \<open>The test of the second log filtering, with factory membership.\<close>

definition isLogMatched ::
  "(LogFactory \<Rightarrow> Address set) \<Rightarrow> (LogFactory \<Rightarrow> Address set) \<Rightarrow> SyncBlock \<Rightarrow> LogFilter \<Rightarrow> SyncLog \<Rightarrow> bool" where
  "isLogMatched fin unfin b f l =
     (isLogFilterMatched f b l \<and>
      (case lf_address f of
         FactoryRef fac \<Rightarrow>
           toLowerCase (log_address l) \<in> fin fac \<or> toLowerCase (log_address l) \<in> unfin fac
       | Plain _ \<Rightarrow> True))"

definition matchedLogs :: "Config \<Rightarrow> State \<Rightarrow> QueueItem \<Rightarrow> SyncLog list" where
  "matchedLogs cfg s it =
     filter (\<lambda>l. \<exists>f \<in> set (logFilters cfg).
                 isLogMatched (finalizedChildAddresses s)
                   (addChildAddresses cfg (it_factoryLogs it) (unfinalizedChildAddresses s))
                   (it_block it) f l)
       (it_logs it)"

definition isTraceMatched :: "Config \<Rightarrow> SyncBlock \<Rightarrow> SyncTrace \<Rightarrow> bool" where
  "isTraceMatched cfg b t =
     ((\<exists>f \<in> set (transferFilters cfg). isTransferFilterMatched f (blk_number b) (tr_trace t))
      \<or> (\<exists>f \<in> set (traceFilters cfg). isTraceFilterMatched f (blk_number b) (tr_trace t)))"

definition matchedTraces :: "Config \<Rightarrow> QueueItem \<Rightarrow> SyncTrace list" where
  "matchedTraces cfg it = filter (isTraceMatched cfg (it_block it)) (it_traces it)"

definition transactionHashes :: "Config \<Rightarrow> State \<Rightarrow> QueueItem \<Rightarrow> Hash set" where
  "transactionHashes cfg s it =
     set (map log_transactionHash (matchedLogs cfg s it))
     \<union> set (map tr_transactionHash (matchedTraces cfg it))"

text \<open>
  \<open>matchedFilters\<close>: every filter that some record of the item matched while the four
  loops ran. Transaction filters are tried on every transaction of the item.
\<close>

definition matchedFilters :: "Config \<Rightarrow> State \<Rightarrow> QueueItem \<Rightarrow> Filter set" where
  "matchedFilters cfg s it =
     LogF ` set (filter (\<lambda>f. \<exists>l \<in> set (it_logs it).
                  isLogMatched (finalizedChildAddresses s)
                    (addChildAddresses cfg (it_factoryLogs it) (unfinalizedChildAddresses s))
                    (it_block it) f l) (logFilters cfg))
     \<union> TransferF ` set (filter (\<lambda>f. \<exists>t \<in> set (it_traces it).
                  isTransferFilterMatched f (blk_number (it_block it)) (tr_trace t))
                  (transferFilters cfg))
     \<union> TraceF ` set (filter (\<lambda>f. \<exists>t \<in> set (it_traces it).
                  isTraceFilterMatched f (blk_number (it_block it)) (tr_trace t))
                  (traceFilters cfg))
     \<union> TransactionF ` set (filter (\<lambda>f. \<exists>t \<in> set (it_transactions it).
                  isTransactionFilterMatched f (blk_number (it_block it)) t)
                  (transactionFilters cfg))
     \<union> BlockF ` set (filter (\<lambda>f. isBlockFilterMatched f (it_block it)) (blockFilters cfg))"

text \<open>
  The transactions are filtered twice: first kept when referenced or matched by a
  transaction filter, then kept only when referenced.
\<close>

definition filteredTransactions :: "Config \<Rightarrow> State \<Rightarrow> QueueItem \<Rightarrow> SyncTransaction list" where
  "filteredTransactions cfg s it =
     filter (\<lambda>t. tx_hash t \<in> transactionHashes cfg s it)
       (filter (\<lambda>t. tx_hash t \<in> transactionHashes cfg s it
                    \<or> (\<exists>f \<in> set (transactionFilters cfg).
                          isTransactionFilterMatched f (blk_number (it_block it)) t))
          (it_transactions it))"

text \<open>
  The payload of the \<open>block\<close> event. \<open>block.transactions = undefined\<close> precedes the call
  of \<open>onEvent\<close>; the dropped array is the empty list here.
\<close>

definition eventData :: "Config \<Rightarrow> State \<Rightarrow> QueueItem \<Rightarrow> QueueItem" where
  "eventData cfg s it =
     \<lparr>it_block = (it_block it)\<lparr>blk_transactions := []\<rparr>,
      it_logs = matchedLogs cfg s it,
      it_factoryLogs = it_factoryLogs it,
      it_traces = matchedTraces cfg it,
      it_transactions = filteredTransactions cfg s it,
      it_transactionReceipts =
        filter (\<lambda>r. rc_transactionHash r \<in> transactionHashes cfg s it)
          (it_transactionReceipts it)\<rparr>"

definition blockEvent :: "Config \<Rightarrow> State \<Rightarrow> QueueItem \<Rightarrow> RealtimeSyncEvent" where
  "blockEvent cfg s it = BlockEvent (matchedFilters cfg s it) (eventData cfg s it)"

text \<open>
  The part of \<open>handleBlock\<close> up to and including the \<open>block\<close> event. The filtering and
  the event read the state as it was on entry, with the child addresses already added.
\<close>

definition ingest :: "Config \<Rightarrow> State \<Rightarrow> QueueItem \<Rightarrow> State" where
  "ingest cfg s it =
     onEvent (blockEvent cfg s it)
       (s\<lparr>unfinalizedChildAddresses :=
            addChildAddresses cfg (it_factoryLogs it) (unfinalizedChildAddresses s),
          unfinalizedBlocks := unfinalizedBlocks s @ [syncBlockToLightBlock (it_block it)]\<rparr>)"

definition blockMovesFinality :: "Config \<Rightarrow> State \<Rightarrow> SyncBlock \<Rightarrow> bool" where
  "blockMovesFinality cfg s b =
     (blk_number b \<ge> lb_number (finalizedBlock s) + 2 * finalityBlockCount cfg)"

definition pendingFinalizedBlock :: "Config \<Rightarrow> State \<Rightarrow> SyncBlock \<Rightarrow> LightBlock option" where
  "pendingFinalizedBlock cfg s b =
     find (\<lambda>lb. int (lb_number lb) = int (blk_number b) - int (finalityBlockCount cfg))
       (unfinalizedBlocks s)"

text \<open>
  The finalization of \<open>handleBlock\<close>, once \<open>pendingFinalizedBlock\<close> is known.
\<close>

definition finalize :: "Config \<Rightarrow> State \<Rightarrow> LightBlock \<Rightarrow> State" where
  "finalize cfg s p =
     (let finalizedBlocks = filter (\<lambda>lb. lb_number lb \<le> lb_number p) (unfinalizedBlocks s);
          remaining = filter (\<lambda>lb. lb_number lb > lb_number p) (unfinalizedBlocks s)
      in onEvent (FinalizeEvent p)
           (s\<lparr>unfinalizedBlocks := remaining,
              finalizedChildAddresses :=
                (\<lambda>f. if f \<in> set (factories cfg)
                      then finalizedChildAddresses s f
                           \<union> blocksChildAddresses cfg (factoryLogsPerBlock s) f finalizedBlocks
                      else finalizedChildAddresses s f),
              unfinalizedChildAddresses :=
                recomputeUnfinalized cfg (factoryLogsPerBlock s) remaining,
              factoryLogsPerBlock := deleteBlocks (factoryLogsPerBlock s) finalizedBlocks,
              finalizedBlock := p\<rparr>))"

text \<open>
  \<open>handleBlock\<close>. The result pairs the error thrown, if any, with the state reached:
  what was assigned before a throw stays assigned. When \<open>find\<close> gives \<open>undefined\<close>, the
  first read of \<open>pendingFinalizedBlock.number\<close> throws.
\<close>

definition handleBlock :: "Config \<Rightarrow> State \<Rightarrow> QueueItem \<Rightarrow> Error option \<times> State" where
  "handleBlock cfg s it =
     (let s1 = ingest cfg s it in
      if blockMovesFinality cfg s1 (it_block it) then
        (case pendingFinalizedBlock cfg s1 (it_block it) of
           None \<Rightarrow> (Some PendingFinalizedBlockUndefined, s1)
         | Some p \<Rightarrow> (None, finalize cfg s1 p))
      else (None, s1))"

section \<open>Reorg: \<open>handleReorg\<close>\<close>

text \<open>
  The \<open>while (true)\<close> loop, on the pruned chain \<open>ubs\<close>, the blocks removed so far and the
  remote block. Each round that does not end the loop pops one block, so it ends.
\<close>

function walkBack ::
  "Rpc \<Rightarrow> LightBlock \<Rightarrow> LightBlock list \<Rightarrow> LightBlock list \<Rightarrow> SyncBlock
     \<Rightarrow> Error option \<times> LightBlock list \<times> LightBlock list" where
  "walkBack rpc fin ubs reorged remote =
     (if lb_hash (if length ubs = 0 then fin else last ubs) = blk_parentHash remote
        then (None, ubs, reorged)
      else if length ubs = 0 then (Some (UnrecoverableReorg (lb_number fin)), ubs, reorged)
      else (case eth_getBlockByHash rpc (blk_parentHash remote) of
              None \<Rightarrow> (Some RpcError, ubs, reorged)
            | Some r \<Rightarrow> walkBack rpc fin (butlast ubs) (reorged @ [last ubs]) r))"
  by pat_completeness auto
termination
  by (relation "measure (\<lambda>(rpc, fin, ubs, reorged, remote). length ubs)") auto

declare walkBack.simps [simp del]

definition handleReorg :: "Config \<Rightarrow> Rpc \<Rightarrow> State \<Rightarrow> SyncBlock \<Rightarrow> Error option \<times> State" where
  "handleReorg cfg rpc s b =
     (let reorged0 = filter (\<lambda>lb. lb_number lb \<ge> blk_number b) (unfinalizedBlocks s);
          pruned = filter (\<lambda>lb. lb_number lb < blk_number b) (unfinalizedBlocks s)
      in case walkBack rpc (finalizedBlock s) pruned reorged0 b of
           (Some e, ubs, reorged) \<Rightarrow> (Some e, s\<lparr>unfinalizedBlocks := ubs\<rparr>)
         | (None, ubs, reorged) \<Rightarrow>
             (let s1 = s\<lparr>unfinalizedBlocks := ubs\<rparr>;
                  s2 = onEvent (ReorgEvent (getLatestUnfinalizedBlock s1) reorged) s1
              in (None,
                  s2\<lparr>unfinalizedChildAddresses :=
                       recomputeUnfinalized cfg (factoryLogsPerBlock s) ubs,
                     factoryLogsPerBlock := deleteBlocks (factoryLogsPerBlock s) reorged\<rparr>)))"

section \<open>Fetching the event data of a block: \<open>fetchBlockEventData\<close>\<close>

definition shouldRequestLogs :: "Config \<Rightarrow> SyncBlock \<Rightarrow> bool" where
  "shouldRequestLogs cfg b =
     (blk_logsBloom b = zeroLogsBloom cfg
      \<or> (\<exists>f \<in> set (logFilters cfg). isFilterInBloom cfg b f))"

definition fetchLogs :: "Config \<Rightarrow> Rpc \<Rightarrow> SyncBlock \<Rightarrow> Error + SyncLog list" where
  "fetchLogs cfg rpc b =
     (if shouldRequestLogs cfg b then
        (case eth_getLogs rpc (blk_hash b) of
           None \<Rightarrow> Inl RpcError
         | Some ls \<Rightarrow>
             if blk_logsBloom b \<noteq> zeroLogsBloom cfg \<and> length ls = 0 then Inl InvalidLogsResponse
             else if \<exists>l \<in> set ls. log_blockHash l \<noteq> blk_hash b then Inl LogBlockHashMismatch
             else Inr ls)
      else Inr [])"

definition shouldRequestTraces :: "Config \<Rightarrow> bool" where
  "shouldRequestTraces cfg = (length (traceFilters cfg) > 0 \<or> length (transferFilters cfg) > 0)"

definition fetchTraces :: "Config \<Rightarrow> Rpc \<Rightarrow> SyncBlock \<Rightarrow> Error + SyncTrace list" where
  "fetchTraces cfg rpc b =
     (case (if shouldRequestTraces cfg then
              (case debug_traceBlockByHash rpc (blk_hash b) of
                 None \<Rightarrow> Inl RpcError
               | Some ts \<Rightarrow>
                   if length (blk_transactions b) \<noteq> 0 \<and> length ts = 0
                   then Inl InvalidTraceResponse else Inr ts)
            else Inr []) of
        Inl e \<Rightarrow> Inl e
      | Inr ts \<Rightarrow>
          (case find (\<lambda>t. find (\<lambda>x. tx_hash x = tr_transactionHash t) (blk_transactions b) = None) ts of
             Some t \<Rightarrow> Inl (TraceTransactionMissing (tr_transactionHash t))
           | None \<Rightarrow> Inr ts))"

text \<open>
  ``Record logs that contain factory child addresses'': a log is pushed onto the entry
  of the block's hash once for every registered factory it matches.
\<close>

definition recordFactoryLogs ::
  "Config \<Rightarrow> Hash \<Rightarrow> SyncLog list \<Rightarrow> (Hash \<rightharpoonup> SyncLog list) \<Rightarrow> (Hash \<rightharpoonup> SyncLog list)" where
  "recordFactoryLogs cfg h ls cache =
     fold (\<lambda>l c. fold (\<lambda>f c. if isLogFactoryMatched f l
                               then c(h \<mapsto> (case c h of None \<Rightarrow> [] | Some old \<Rightarrow> old) @ [l])
                               else c)
                   (factories cfg) c)
       ls cache"

definition fetchReceipts :: "Rpc \<Rightarrow> Hash list \<Rightarrow> Error + SyncTransactionReceipt list" where
  "fetchReceipts rpc hs =
     (if \<exists>h \<in> set hs. eth_getTransactionReceipt rpc h = None then Inl RpcError
      else Inr (map (\<lambda>h. the (eth_getTransactionReceipt rpc h)) hs))"

text \<open>
  The result pairs what the call returns or throws with \<open>factoryLogsPerBlock\<close> as the
  call leaves it: the factory logs are recorded before the last two checks can throw.
\<close>

definition fetchBlockEventData ::
  "Config \<Rightarrow> Rpc \<Rightarrow> (Hash \<rightharpoonup> SyncLog list) \<Rightarrow> SyncBlock
     \<Rightarrow> (Error + QueueItem) \<times> (Hash \<rightharpoonup> SyncLog list)" where
  "fetchBlockEventData cfg rpc cache b =
     (case fetchLogs cfg rpc b of
        Inl e \<Rightarrow> (Inl e, cache)
      | Inr allLogs \<Rightarrow>
     (case fetchTraces cfg rpc b of
        Inl e \<Rightarrow> (Inl e, cache)
      | Inr allTraces \<Rightarrow>
     (let factoryLogs = filter (\<lambda>l. \<exists>f \<in> set (factories cfg). isLogFactoryMatched f l) allLogs;
          cache1 = recordFactoryLogs cfg (blk_hash b) allLogs cache;
          logs = filter (\<lambda>l. \<exists>f \<in> set (logFilters cfg). isLogFilterMatched f b l) allLogs;
          traces = filter (isTraceMatched cfg b) allTraces;
          required = map log_transactionHash logs @ map tr_transactionHash traces;
          transactions =
            filter (\<lambda>t. tx_hash t \<in> set required
                        \<or> (\<exists>f \<in> set (transactionFilters cfg).
                              isTransactionFilterMatched f (blk_number b) t))
              (blk_transactions b);
          requiredReceipts =
            filter (\<lambda>t. \<exists>f \<in> set (transactionFilters cfg).
                          isTransactionFilterMatched f (blk_number b) t \<and> \<not> xf_includeReverted f)
              (blk_transactions b)
      in case find (\<lambda>h. h \<notin> tx_hash ` set (blk_transactions b)) required of
           Some h \<Rightarrow> (Inl (TransactionMissing h), cache1)
         | None \<Rightarrow>
             (case fetchReceipts rpc (map tx_hash requiredReceipts) of
                Inl e \<Rightarrow> (Inl e, cache1)
              | Inr receipts \<Rightarrow>
                  (Inr \<lparr>it_block = b, it_logs = logs, it_factoryLogs = factoryLogs,
                        it_traces = traces, it_transactions = transactions,
                        it_transactionReceipts = receipts\<rparr>, cache1)))))"

section \<open>The queue worker and the poller\<close>

text \<open>
  Modelled from the spec: \<open>range\<close> of \<open>utils/range.js\<close> (not among the sources) is
  exclusive of its upper bound: a head at 100 and an incoming block 105 fetch 101..104.

  The gap fill starts one fetch per missing number under \<open>Promise.all\<close>. Every fetch
  runs to its end, leaving what it recorded in \<open>factoryLogsPerBlock\<close>; \<open>fetchMissing\<close>
  gives the failures and the fetched items, each in range order. \<open>Promise.all\<close> rejects
  with the failure that comes first in time.
\<close>

fun fetchMissing ::
  "Config \<Rightarrow> Rpc \<Rightarrow> (Hash \<rightharpoonup> SyncLog list) \<Rightarrow> nat list
     \<Rightarrow> (Error list \<times> QueueItem list) \<times> (Hash \<rightharpoonup> SyncLog list)" where
  "fetchMissing cfg rpc cache [] = (([], []), cache)"
| "fetchMissing cfg rpc cache (n # ns) =
     (case eth_getBlockByNumber rpc n of
        None \<Rightarrow>
          (case fetchMissing cfg rpc cache ns of
             ((errs, its), cache2) \<Rightarrow> ((RpcError # errs, its), cache2))
      | Some b \<Rightarrow>
          (case fetchBlockEventData cfg rpc cache b of
             (r1, cache1) \<Rightarrow>
               (case fetchMissing cfg rpc cache1 ns of
                  ((errs, its), cache2) \<Rightarrow>
                    (case r1 of
                       Inl e \<Rightarrow> ((e # errs, its), cache2)
                     | Inr it \<Rightarrow> ((errs, it # its), cache2)))))"

definition rejection :: "Rpc \<Rightarrow> Error list \<Rightarrow> Error" where
  "rejection rpc errs =
     (if settlesFirst rpc errs \<in> set errs then settlesFirst rpc errs else hd errs)"

definition gapFill :: "Config \<Rightarrow> Rpc \<Rightarrow> State \<Rightarrow> QueueItem \<Rightarrow> Error option \<times> State" where
  "gapFill cfg rpc s it =
     (let latest = lb_number (getLatestUnfinalizedBlock s);
          missingBlockRange =
            [latest + 1 ..< min (blk_number (it_block it)) (latest + MAX_QUEUED_BLOCKS)]
      in case fetchMissing cfg rpc (factoryLogsPerBlock s) missingBlockRange of
           ((errs, pendingBlocks), cache1) \<Rightarrow>
             (let s1 = s\<lparr>factoryLogsPerBlock := cache1\<rparr>
              in if errs \<noteq> [] then (Some (rejection rpc errs), s1)
                 else if isKilled s1 then (None, s1)
                 else (None, s1\<lparr>queue := pendingBlocks @ [it]\<rparr>)))"

text \<open>The body of the worker's \<open>try\<close>.\<close>

definition process :: "Config \<Rightarrow> Rpc \<Rightarrow> State \<Rightarrow> QueueItem \<Rightarrow> Error option \<times> State" where
  "process cfg rpc s it =
     (let latestBlock = getLatestUnfinalizedBlock s; b = it_block it in
      if lb_number latestBlock \<ge> blk_number b then
        (case handleReorg cfg rpc s b of
           (None, s1) \<Rightarrow> (None, s1\<lparr>queue := []\<rparr>)
         | (Some e, s1) \<Rightarrow> (Some e, s1))
      else if lb_number latestBlock + 1 < blk_number b then gapFill cfg rpc s it
      else if blk_parentHash b \<noteq> lb_hash latestBlock then
        (case handleReorg cfg rpc s b of
           (None, s1) \<Rightarrow> (None, s1\<lparr>queue := []\<rparr>)
         | (Some e, s1) \<Rightarrow> (Some e, s1))
      else
        (case handleBlock cfg s it of
           (None, s1) \<Rightarrow> (None, s1\<lparr>consecutiveErrors := 0\<rparr>)
         | (Some e, s1) \<Rightarrow> (Some e, s1)))"

text \<open>
  The worker's \<open>catch\<close>: the queue is cleared, the shared counter \<open>consecutiveErrors\<close>
  goes up by one, and reaching the length of \<open>ERROR_TIMEOUT\<close> calls \<open>onFatalError\<close>.
\<close>

definition workerCatch :: "Error \<Rightarrow> State \<Rightarrow> State" where
  "workerCatch e s =
     (if isKilled s then s
      else (let s1 = s\<lparr>queue := [], consecutiveErrors := consecutiveErrors s + 1\<rparr>
            in if consecutiveErrors s1 = length ERROR_TIMEOUT
               then s1\<lparr>emitted := emitted s1 @ [OnFatalError e]\<rparr> else s1))"

definition worker :: "Config \<Rightarrow> Rpc \<Rightarrow> State \<Rightarrow> QueueItem \<Rightarrow> State" where
  "worker cfg rpc s it =
     (if lb_hash (getLatestUnfinalizedBlock s) = blk_hash (it_block it) then s
      else (case process cfg rpc s it of
              (None, s1) \<Rightarrow> s1
            | (Some e, s1) \<Rightarrow> workerCatch e s1))"

text \<open>The poller's \<open>catch\<close>: the same counter and the same threshold; the queue is kept.\<close>

definition enqueueCatch :: "Error \<Rightarrow> State \<Rightarrow> State" where
  "enqueueCatch e s =
     (if isKilled s then s
      else (let s1 = s\<lparr>consecutiveErrors := consecutiveErrors s + 1\<rparr>
            in if consecutiveErrors s1 = length ERROR_TIMEOUT
               then s1\<lparr>emitted := emitted s1 @ [OnFatalError e]\<rparr> else s1))"

definition enqueue :: "Config \<Rightarrow> Rpc \<Rightarrow> State \<Rightarrow> State" where
  "enqueue cfg rpc s =
     (case eth_getLatestBlock rpc of
        None \<Rightarrow> enqueueCatch RpcError s
      | Some b \<Rightarrow>
          if lb_hash (getLatestUnfinalizedBlock s) = blk_hash b then s
          else (case fetchBlockEventData cfg rpc (factoryLogsPerBlock s) b of
                  (Inl e, cache1) \<Rightarrow> enqueueCatch e (s\<lparr>factoryLogsPerBlock := cache1\<rparr>)
                | (Inr it, cache1) \<Rightarrow>
                    s\<lparr>factoryLogsPerBlock := cache1, consecutiveErrors := 0,
                      queue := queue s @ [it]\<rparr>))"

definition kill :: "State \<Rightarrow> State" where
  "kill s = s\<lparr>isKilled := True, queue := []\<rparr>"

text \<open>
  The state that \<open>start\<close> sets up from the last finalized block and the initial child
  addresses, before its first poll.
\<close>

definition start :: "LightBlock \<Rightarrow> (LogFactory \<Rightarrow> Address set) \<Rightarrow> State" where
  "start finalized initialChildAddresses =
     \<lparr>isKilled = False, finalizedBlock = finalized,
      finalizedChildAddresses = initialChildAddresses,
      unfinalizedChildAddresses = (\<lambda>f. {}),
      factoryLogsPerBlock = Map.empty,
      unfinalizedBlocks = [], queue = [], consecutiveErrors = 0, emitted = []\<rparr>"

text \<open>
  A run of the service is a sequence of polls, worker runs on the head of the queue and
  kills, each taken as one step with the answers the request queue gives during it.
  A killed service has its queue paused: no worker runs.
\<close>

datatype Action = Poll Rpc | Work Rpc | Kill

fun step :: "Config \<Rightarrow> Action \<Rightarrow> State \<Rightarrow> State" where
  "step cfg (Poll rpc) s = enqueue cfg rpc s"
| "step cfg (Work rpc) s =
     (if isKilled s then s
      else (case queue s of
              [] \<Rightarrow> s
            | it # rest \<Rightarrow> worker cfg rpc (s\<lparr>queue := rest\<rparr>) it))"
| "step cfg Kill s = kill s"

definition run :: "Config \<Rightarrow> Action list \<Rightarrow> State \<Rightarrow> State" where
  "run cfg acts s = fold (step cfg) acts s"

section \<open>Event builder: \<open>buildEvents\<close>\<close>

record Checkpoint =
  cp_blockTimestamp :: nat
  cp_chainId :: nat
  cp_blockNumber :: nat
  cp_transactionIndex :: nat
  cp_eventType :: nat
  cp_eventIndex :: nat

text \<open>
  What \<open>buildEvents\<close> imports from \<open>utils/checkpoint.js\<close> (not among the sources), taken
  as parameters: the encoder, the four ranks of \<open>EVENT_TYPES\<close> and the two bounding
  checkpoints.
\<close>

record CheckpointLib =
  encodeCheckpoint :: "Checkpoint \<Rightarrow> string"
  EVENT_TYPES_transactions :: nat
  EVENT_TYPES_blocks :: nat
  EVENT_TYPES_logs :: nat
  EVENT_TYPES_traces :: nat
  maxCheckpoint :: Checkpoint
  zeroCheckpoint :: Checkpoint

text \<open>
  A \<open>RawEvent\<close>. The \<open>convert...\<close> functions only reformat fields (hex to bigint,
  checksummed addresses); the event holds the records they are applied to.
\<close>

record RawEvent =
  re_chainId :: nat
  re_sourceIndex :: nat
  re_checkpoint :: string
  re_log :: "SyncLog option"
  re_block :: SyncBlock
  re_transaction :: "SyncTransaction option"
  re_transactionReceipt :: "SyncTransactionReceipt option"
  re_trace :: "SyncTrace option"

fun sourceChainId :: "Source \<Rightarrow> nat" where
  "sourceChainId (ContractLog f) = lf_chainId f"
| "sourceChainId (ContractTrace f) = cf_chainId f"
| "sourceChainId (AccountTransaction f) = xf_chainId f"
| "sourceChainId (AccountTransfer f) = rf_chainId f"
| "sourceChainId (BlockSource f) = bf_chainId f"

text \<open>\<open>transactionCache\<close>: a later transaction with the same hash replaces an earlier one.\<close>

definition transactionCache :: "SyncTransaction list \<Rightarrow> (Hash \<rightharpoonup> SyncTransaction)" where
  "transactionCache txs = fold (\<lambda>t m. m(tx_hash t \<mapsto> t)) txs Map.empty"

text \<open>
  One \<open>for\<close> loop that pushes an event for every matching record: \<open>g\<close> gives \<open>None\<close> for
  a record that does not match, and the event or the error thrown for one that does. The
  first throw ends the whole call.
\<close>

fun collect :: "('a \<Rightarrow> (Error + RawEvent) option) \<Rightarrow> 'a list \<Rightarrow> Error + RawEvent list" where
  "collect g [] = Inr []"
| "collect g (x # xs) =
     (case g x of
        None \<Rightarrow> collect g xs
      | Some (Inl e) \<Rightarrow> Inl e
      | Some (Inr ev) \<Rightarrow>
          (case collect g xs of Inl e \<Rightarrow> Inl e | Inr evs \<Rightarrow> Inr (ev # evs)))"

definition logEvent ::
  "CheckpointLib \<Rightarrow> QueueItem \<Rightarrow> (LogFactory \<Rightarrow> Address set) \<Rightarrow> (LogFactory \<Rightarrow> Address set)
     \<Rightarrow> nat \<Rightarrow> LogFilter \<Rightarrow> SyncLog \<Rightarrow> (Error + RawEvent) option" where
  "logEvent lib d fin unfin i f l =
     (if isLogFilterMatched f (it_block d) l
         \<and> (case lf_address f of
               FactoryRef fac \<Rightarrow> log_address l \<in> fin fac \<or> log_address l \<in> unfin fac
             | Plain _ \<Rightarrow> True)
      then Some (case transactionCache (it_transactions d) (log_transactionHash l) of
                   None \<Rightarrow> Inl (TransactionUndefined (log_transactionHash l))
                 | Some t \<Rightarrow>
                     Inr \<lparr>re_chainId = lf_chainId f, re_sourceIndex = i,
                          re_checkpoint = encodeCheckpoint lib
                            \<lparr>cp_blockTimestamp = blk_timestamp (it_block d),
                             cp_chainId = lf_chainId f,
                             cp_blockNumber = log_blockNumber l,
                             cp_transactionIndex = log_transactionIndex l,
                             cp_eventType = EVENT_TYPES_logs lib,
                             cp_eventIndex = log_logIndex l\<rparr>,
                          re_log = Some l, re_block = it_block d, re_transaction = Some t,
                          re_transactionReceipt = None, re_trace = None\<rparr>)
      else None)"

text \<open>The event of a trace, for a trace filter and for a transfer filter alike.\<close>

definition traceEvent ::
  "CheckpointLib \<Rightarrow> QueueItem \<Rightarrow> nat \<Rightarrow> nat \<Rightarrow> SyncTrace \<Rightarrow> Error + RawEvent" where
  "traceEvent lib d i chain t =
     (case transactionCache (it_transactions d) (tr_transactionHash t) of
        None \<Rightarrow> Inl (TransactionUndefined (tr_transactionHash t))
      | Some tx \<Rightarrow>
          Inr \<lparr>re_chainId = chain, re_sourceIndex = i,
               re_checkpoint = encodeCheckpoint lib
                 \<lparr>cp_blockTimestamp = blk_timestamp (it_block d),
                  cp_chainId = chain,
                  cp_blockNumber = blk_number (it_block d),
                  cp_transactionIndex = tx_transactionIndex tx,
                  cp_eventType = EVENT_TYPES_traces lib,
                  cp_eventIndex = tr_position t\<rparr>,
               re_log = None, re_block = it_block d, re_transaction = Some tx,
               re_transactionReceipt = None, re_trace = Some t\<rparr>)"

definition transactionEvent ::
  "CheckpointLib \<Rightarrow> QueueItem \<Rightarrow> nat \<Rightarrow> TransactionFilter \<Rightarrow> SyncTransaction \<Rightarrow> RawEvent" where
  "transactionEvent lib d i f t =
     \<lparr>re_chainId = xf_chainId f, re_sourceIndex = i,
      re_checkpoint = encodeCheckpoint lib
        \<lparr>cp_blockTimestamp = blk_timestamp (it_block d),
         cp_chainId = xf_chainId f,
         cp_blockNumber = blk_number (it_block d),
         cp_transactionIndex = tx_transactionIndex t,
         cp_eventType = EVENT_TYPES_transactions lib,
         cp_eventIndex = 0\<rparr>,
      re_log = None, re_block = it_block d, re_transaction = Some t,
      re_transactionReceipt = None, re_trace = None\<rparr>"

definition blockFilterEvent :: "CheckpointLib \<Rightarrow> QueueItem \<Rightarrow> nat \<Rightarrow> BlockFilter \<Rightarrow> RawEvent" where
  "blockFilterEvent lib d i f =
     \<lparr>re_chainId = bf_chainId f, re_sourceIndex = i,
      re_checkpoint = encodeCheckpoint lib
        \<lparr>cp_blockTimestamp = blk_timestamp (it_block d),
         cp_chainId = bf_chainId f,
         cp_blockNumber = blk_number (it_block d),
         cp_transactionIndex = cp_transactionIndex (maxCheckpoint lib),
         cp_eventType = EVENT_TYPES_blocks lib,
         cp_eventIndex = cp_eventIndex (zeroCheckpoint lib)\<rparr>,
      re_log = None, re_block = it_block d, re_transaction = None,
      re_transactionReceipt = None, re_trace = None\<rparr>"

text \<open>The body of the loop over the sources, for the source at index \<open>i\<close>.\<close>

fun sourceEvents ::
  "CheckpointLib \<Rightarrow> QueueItem \<Rightarrow> (LogFactory \<Rightarrow> Address set) \<Rightarrow> (LogFactory \<Rightarrow> Address set)
     \<Rightarrow> nat \<Rightarrow> Source \<Rightarrow> Error + RawEvent list" where
  "sourceEvents lib d fin unfin i (ContractLog f) =
     collect (logEvent lib d fin unfin i f) (it_logs d)"
| "sourceEvents lib d fin unfin i (ContractTrace f) =
     collect (\<lambda>t. if isTraceFilterMatched f (blk_number (it_block d)) (tr_trace t)
                   then Some (traceEvent lib d i (cf_chainId f) t) else None)
       (it_traces d)"
| "sourceEvents lib d fin unfin i (AccountTransaction f) =
     collect (\<lambda>t. if isTransactionFilterMatched f (blk_number (it_block d)) t
                   then Some (Inr (transactionEvent lib d i f t)) else None)
       (it_transactions d)"
| "sourceEvents lib d fin unfin i (AccountTransfer f) =
     collect (\<lambda>t. if isTransferFilterMatched f (blk_number (it_block d)) (tr_trace t)
                   then Some (traceEvent lib d i (rf_chainId f) t) else None)
       (it_traces d)"
| "sourceEvents lib d fin unfin i (BlockSource f) =
     (if isBlockFilterMatched f (it_block d) then Inr [blockFilterEvent lib d i f] else Inr [])"

text \<open>The loop \<open>for (let i = 0; i < sources.length; i++)\<close>, from index \<open>i\<close> on.\<close>

fun eventsFrom ::
  "CheckpointLib \<Rightarrow> QueueItem \<Rightarrow> (LogFactory \<Rightarrow> Address set) \<Rightarrow> (LogFactory \<Rightarrow> Address set)
     \<Rightarrow> nat \<Rightarrow> nat \<Rightarrow> Source list \<Rightarrow> Error + RawEvent list" where
  "eventsFrom lib d fin unfin chainId i [] = Inr []"
| "eventsFrom lib d fin unfin chainId i (src # rest) =
     (case (if chainId \<noteq> sourceChainId src then Inr []
            else sourceEvents lib d fin unfin i src) of
        Inl e \<Rightarrow> Inl e
      | Inr evs \<Rightarrow>
          (case eventsFrom lib d fin unfin chainId (i + 1) rest of
             Inl e \<Rightarrow> Inl e
           | Inr later \<Rightarrow> Inr (evs @ later)))"

text \<open>
  \<open>events.sort((a, b) => (a.checkpoint < b.checkpoint ? -1 : 1))\<close>. The comparator
  never answers 0. \<open>Array.prototype.sort\<close> is taken as an insertion sort that asks the
  comparator as it is written: an element moves in front of the first one it is reported
  smaller than. Strings compare as JavaScript compares them, lexicographically by
  character code.
\<close>

definition compareFn :: "RawEvent \<Rightarrow> RawEvent \<Rightarrow> int" where
  "compareFn a b = (if re_checkpoint a < re_checkpoint b then - 1 else 1)"

fun insertEvent :: "RawEvent \<Rightarrow> RawEvent list \<Rightarrow> RawEvent list" where
  "insertEvent x [] = [x]"
| "insertEvent x (y # ys) =
     (if compareFn x y < 0 then x # y # ys else y # insertEvent x ys)"

definition sortEvents :: "RawEvent list \<Rightarrow> RawEvent list" where
  "sortEvents evs = fold insertEvent evs []"

definition buildEvents ::
  "CheckpointLib \<Rightarrow> Source list \<Rightarrow> QueueItem \<Rightarrow> (LogFactory \<Rightarrow> Address set)
     \<Rightarrow> (LogFactory \<Rightarrow> Address set) \<Rightarrow> nat \<Rightarrow> Error + RawEvent list" where
  "buildEvents lib srcs d fin unfin chainId =
     (case eventsFrom lib d fin unfin chainId 0 srcs of
        Inl e \<Rightarrow> Inl e
      | Inr evs \<Rightarrow> Inr (sortEvents evs))"

section \<open>Properties stated\<close>

subsection \<open>Value matching as the specification words it\<close>

text \<open>Equality after lowercase normalization of both sides.\<close>

definition ciEqual :: "string \<Rightarrow> string \<Rightarrow> bool" where
  "ciEqual a b = (toLowerCase a = toLowerCase b)"

text \<open>
  The common rule of the specification: a candidate matches iff the constraint is absent,
  or equals the candidate case-insensitively, or is a list containing the candidate
  case-insensitively; a missing candidate matches only the absent constraint.
\<close>

fun valueMatchSpec :: "FilterValue \<Rightarrow> string option \<Rightarrow> bool" where
  "valueMatchSpec Absent _ = True"
| "valueMatchSpec _ None = False"
| "valueMatchSpec (Single v) (Some e) = ciEqual v e"
| "valueMatchSpec (Many vs) (Some e) = (\<exists>v \<in> set vs. ciEqual v e)"

text \<open>A constraint whose values are already in lowercase.\<close>

fun lowercased :: "FilterValue \<Rightarrow> bool" where
  "lowercased Absent = True"
| "lowercased (Single v) = (toLowerCase v = v)"
| "lowercased (Many vs) = (\<forall>v \<in> set vs. toLowerCase v = v)"

subsection \<open>The chain of unfinalized blocks\<close>

text \<open>
  \<open>linked prev bs\<close>: every block of \<open>bs\<close> names its predecessor as parent and has the
  next number, the first one counted from \<open>prev\<close>.
\<close>

fun linked :: "LightBlock \<Rightarrow> LightBlock list \<Rightarrow> bool" where
  "linked prev [] = True"
| "linked prev (b # bs) =
     (lb_parentHash b = lb_hash prev \<and> lb_number b = lb_number prev + 1 \<and> linked b bs)"

text \<open>Any two consecutive entries \<open>a, b\<close>: \<open>b.parentHash = a.hash\<close> and \<open>b.number = a.number + 1\<close>.\<close>

fun consecutiveLinked :: "LightBlock list \<Rightarrow> bool" where
  "consecutiveLinked (a # b # bs) =
     (lb_parentHash b = lb_hash a \<and> lb_number b = lb_number a + 1 \<and> consecutiveLinked (b # bs))"
| "consecutiveLinked _ = True"

definition chainInvariant :: "State \<Rightarrow> bool" where
  "chainInvariant s =
     (consecutiveLinked (unfinalizedBlocks s)
      \<and> (case unfinalizedBlocks s of
            [] \<Rightarrow> True
          | b # _ \<Rightarrow> lb_parentHash b = lb_hash (finalizedBlock s)))"

text \<open>The two conditions under which the worker reaches \<open>handleBlock\<close>.\<close>

definition happyPath :: "State \<Rightarrow> QueueItem \<Rightarrow> bool" where
  "happyPath s it =
     (blk_number (it_block it) = lb_number (getLatestUnfinalizedBlock s) + 1
      \<and> blk_parentHash (it_block it) = lb_hash (getLatestUnfinalizedBlock s))"

subsection \<open>The walk-back of a reorg\<close>







subsection \<open>Block-level checkpoints\<close>

text \<open>
  The checkpoint of a block-level event: the sentinel maximum \<open>transactionIndex\<close> and the
  zero \<open>eventIndex\<close>, in the block's timestamp and number and the filter's chain.
\<close>

definition blockCheckpoint :: "CheckpointLib \<Rightarrow> SyncBlock \<Rightarrow> BlockFilter \<Rightarrow> string" where
  "blockCheckpoint lib b f =
     encodeCheckpoint lib
       \<lparr>cp_blockTimestamp = blk_timestamp b, cp_chainId = bf_chainId f,
        cp_blockNumber = blk_number b,
        cp_transactionIndex = cp_transactionIndex (maxCheckpoint lib),
        cp_eventType = EVENT_TYPES_blocks lib,
        cp_eventIndex = cp_eventIndex (zeroCheckpoint lib)\<rparr>"

section \<open>Example data\<close>

text \<open>
  One factory at \<open>0xfa\<close> announcing children with selector \<open>0xe1\<close>, one log filter on its
  children, finality after two blocks, and a chain 101..104 on top of block 100.
\<close>

definition exFactory :: LogFactory where
  "exFactory = \<lparr>fac_chainId = 1, fac_address = One ''0xfa'', fac_eventSelector = ''0xe1'',
     fac_childAddressLocation = ''data''\<rparr>"

definition exLogFilter :: LogFilter where
  "exLogFilter = \<lparr>lf_chainId = 1, lf_address = FactoryRef exFactory, lf_topic0 = Absent,
     lf_topic1 = Absent, lf_topic2 = Absent, lf_topic3 = Absent,
     lf_fromBlock = None, lf_toBlock = None\<rparr>"

definition exConfig :: Config where
  "exConfig = \<lparr>sources = [ContractLog exLogFilter], finalityBlockCount = 2,
     getChildAddress = (\<lambda>l f. log_data l), isFilterInBloom = (\<lambda>b f. True),
     zeroLogsBloom = ''0x00''\<rparr>"

definition exBlock :: "nat \<Rightarrow> Hash \<Rightarrow> Hash \<Rightarrow> SyncBlock" where
  "exBlock n h p = \<lparr>blk_number = n, blk_hash = h, blk_parentHash = p, blk_timestamp = n,
     blk_logsBloom = ''0x00'', blk_transactions = []\<rparr>"

definition exLight :: "nat \<Rightarrow> Hash \<Rightarrow> Hash \<Rightarrow> LightBlock" where
  "exLight n h p = \<lparr>lb_number = n, lb_hash = h, lb_parentHash = p, lb_timestamp = n\<rparr>"

definition exRpc :: "SyncBlock list \<Rightarrow> (Hash \<Rightarrow> SyncLog list) \<Rightarrow> Hash \<Rightarrow> Rpc" where
  "exRpc chain logsOf latest =
     \<lparr>eth_getBlockByHash = (\<lambda>h. find (\<lambda>b. blk_hash b = h) chain),
      eth_getBlockByNumber = (\<lambda>n. find (\<lambda>b. blk_number b = n) chain),
      eth_getLatestBlock = find (\<lambda>b. blk_hash b = latest) chain,
      eth_getLogs = (\<lambda>h. Some (logsOf h)),
      debug_traceBlockByHash = (\<lambda>h. Some []),
      eth_getTransactionReceipt = (\<lambda>h. None),
      settlesFirst = (\<lambda>errs. hd errs)\<rparr>"

definition rpcDown :: Rpc where
  "rpcDown = \<lparr>eth_getBlockByHash = (\<lambda>h. None), eth_getBlockByNumber = (\<lambda>n. None),
      eth_getLatestBlock = None, eth_getLogs = (\<lambda>h. None),
      debug_traceBlockByHash = (\<lambda>h. None), eth_getTransactionReceipt = (\<lambda>h. None),
      settlesFirst = (\<lambda>errs. hd errs)\<rparr>"

definition exTx :: SyncTransaction where
  "exTx = \<lparr>tx_hash = ''0x77'', tx_from = ''0xbb'', tx_to = Some ''0xfa'', tx_transactionIndex = 0\<rparr>"

definition exChain :: "SyncBlock list" where
  "exChain = [exBlock 101 ''a1'' ''a0'', (exBlock 102 ''a2'' ''a1'')\<lparr>blk_transactions := [exTx]\<rparr>,
              exBlock 103 ''a3'' ''a2'', exBlock 104 ''a4'' ''a3'']"

definition exFactoryLog :: "Hash \<Rightarrow> Address \<Rightarrow> SyncLog" where
  "exFactoryLog h child = \<lparr>log_address = ''0xfa'', log_topics = [''0xe1''], log_data = child,
     log_blockHash = h, log_blockNumber = 0, log_transactionHash = ''0x77'',
     log_transactionIndex = 0, log_logIndex = 0\<rparr>"

definition exLogs :: "Hash \<Rightarrow> SyncLog list" where
  "exLogs h = (if h = ''a2'' then [exFactoryLog ''a2'' ''0xc2''] else [])"

definition exStart :: State where
  "exStart = start (exLight 100 ''a0'' ''9f'') (\<lambda>f. {})"

definition exActs :: "Action list" where
  "exActs = [Poll (exRpc exChain exLogs ''a1''), Work rpcDown,
             Poll (exRpc exChain exLogs ''a2''), Work rpcDown,
             Poll (exRpc exChain exLogs ''a3''), Work rpcDown]"

definition exTxFilter :: TransactionFilter where
  "exTxFilter = \<lparr>xf_chainId = 1, xf_fromAddress = Plain Absent,
     xf_toAddress = Plain (Single ''0xaa''), xf_includeReverted = True,
     xf_fromBlock = None, xf_toBlock = None\<rparr>"

definition exCreation :: SyncTransaction where
  "exCreation = \<lparr>tx_hash = ''0x01'', tx_from = ''0xbb'', tx_to = None, tx_transactionIndex = 0\<rparr>"

definition exDuplicate :: QueueItem where
  "exDuplicate = \<lparr>it_block = exBlock 100 ''a0'' ''9f'', it_logs = [], it_factoryLogs = [],
     it_traces = [], it_transactions = [], it_transactionReceipts = []\<rparr>"

text \<open>
  A second configuration: a log filter on the plain address \<open>0xd1\<close> and a transaction
  filter on the sender \<open>0xbb\<close>; an item for block 101 with one log of transaction \<open>0x77\<close>
  and two transactions, of which \<open>0x88\<close> is matched by the transaction filter only.
\<close>

definition exPlainLogFilter :: LogFilter where
  "exPlainLogFilter = \<lparr>lf_chainId = 1, lf_address = Plain (Single ''0xd1''), lf_topic0 = Absent,
     lf_topic1 = Absent, lf_topic2 = Absent, lf_topic3 = Absent,
     lf_fromBlock = None, lf_toBlock = None\<rparr>"

definition exFromFilter :: TransactionFilter where
  "exFromFilter = \<lparr>xf_chainId = 1, xf_fromAddress = Plain (Single ''0xbb''),
     xf_toAddress = Plain Absent, xf_includeReverted = True,
     xf_fromBlock = None, xf_toBlock = None\<rparr>"

definition exConfigTx :: Config where
  "exConfigTx = \<lparr>sources = [ContractLog exPlainLogFilter, AccountTransaction exFromFilter],
     finalityBlockCount = 2,
     getChildAddress = (\<lambda>l f. log_data l), isFilterInBloom = (\<lambda>b f. True),
     zeroLogsBloom = ''0x00''\<rparr>"

definition exTxLogged :: SyncTransaction where
  "exTxLogged = \<lparr>tx_hash = ''0x77'', tx_from = ''0xcc'', tx_to = Some ''0xd1'', tx_transactionIndex = 0\<rparr>"

definition exTxPlain :: SyncTransaction where
  "exTxPlain = \<lparr>tx_hash = ''0x88'', tx_from = ''0xbb'', tx_to = Some ''0xee'', tx_transactionIndex = 1\<rparr>"

definition exItemTx :: QueueItem where
  "exItemTx = \<lparr>it_block = exBlock 101 ''a1'' ''a0'',
     it_logs = [\<lparr>log_address = ''0xd1'', log_topics = [''0x01''], log_data = ''0x'',
        log_blockHash = ''a1'', log_blockNumber = 101, log_transactionHash = ''0x77'',
        log_transactionIndex = 0, log_logIndex = 0\<rparr>],
     it_factoryLogs = [], it_traces = [],
     it_transactions = [exTxLogged, exTxPlain], it_transactionReceipts = []\<rparr>"

text \<open>Block 104, to be ingested on top of 101..103.\<close>

definition exItem104 :: QueueItem where
  "exItem104 = \<lparr>it_block = exBlock 104 ''a4'' ''a3'', it_logs = [], it_factoryLogs = [],
     it_traces = [], it_transactions = [], it_transactionReceipts = []\<rparr>"

text \<open>
  The state after blocks 101 and 102, and a fork: block 102 with hash \<open>b2\<close> on a block
  101 with hash \<open>b1\<close>, itself on the finalized block 100.
\<close>

definition exActs2 :: "Action list" where
  "exActs2 = [Poll (exRpc exChain exLogs ''a1''), Work rpcDown,
              Poll (exRpc exChain exLogs ''a2''), Work rpcDown]"


definition exFork :: SyncBlock where
  "exFork = exBlock 102 ''b2'' ''b1''"

definition exForkRpc :: Rpc where
  "exForkRpc = exRpc [exFork, exBlock 101 ''b1'' ''a0''] (\<lambda>h. []) ''b2''"

definition exActsFork :: "Action list" where
  "exActsFork = exActs2 @ [Poll exForkRpc, Work rpcDown]"

text \<open>
  An encoder for the examples (one digit each for transaction index, event type and event
  index), and two sources: a block filter matching every block, then the transaction
  filter on the sender \<open>0xbb\<close>.
\<close>

definition exDigit :: "nat \<Rightarrow> char" where
  "exDigit n = ''0123456789'' ! n"

definition exLib :: CheckpointLib where
  "exLib = \<lparr>encodeCheckpoint =
       (\<lambda>c. [exDigit (cp_transactionIndex c), exDigit (cp_eventType c), exDigit (cp_eventIndex c)]),
     EVENT_TYPES_transactions = 2, EVENT_TYPES_blocks = 5, EVENT_TYPES_logs = 5,
     EVENT_TYPES_traces = 7,
     maxCheckpoint = \<lparr>cp_blockTimestamp = 9, cp_chainId = 9, cp_blockNumber = 9,
       cp_transactionIndex = 9, cp_eventType = 9, cp_eventIndex = 9\<rparr>,
     zeroCheckpoint = \<lparr>cp_blockTimestamp = 0, cp_chainId = 0, cp_blockNumber = 0,
       cp_transactionIndex = 0, cp_eventType = 0, cp_eventIndex = 0\<rparr>\<rparr>"

definition exBlockFilter :: BlockFilter where
  "exBlockFilter = \<lparr>bf_chainId = 1, bf_interval = 1, bf_offset = 0,
     bf_fromBlock = None, bf_toBlock = None\<rparr>"

definition exSources :: "Source list" where
  "exSources = [BlockSource exBlockFilter, AccountTransaction exFromFilter]"

section \<open>Evaluation of the examples\<close>

lemmas ex_defs = exTx_def exFactory_def exLogFilter_def exConfig_def exBlock_def exLight_def
  exRpc_def rpcDown_def exChain_def exFactoryLog_def exLogs_def exStart_def exActs_def
  exTxFilter_def exCreation_def exDuplicate_def exPlainLogFilter_def exFromFilter_def
  exConfigTx_def exTxLogged_def exTxPlain_def exItemTx_def exItem104_def

lemmas ex2_defs = exActs2_def exFork_def exForkRpc_def

lemmas ex9_defs = exDigit_def exLib_def exBlockFilter_def exSources_def

lemmas model_defs = run_def start_def enqueue_def worker_def process_def handleBlock_def
  ingest_def onEvent_def getLatestUnfinalizedBlock_def fetchBlockEventData_def fetchLogs_def
  fetchTraces_def shouldRequestLogs_def shouldRequestTraces_def recordFactoryLogs_def
  fetchReceipts_def logFilters_def traceFilters_def transferFilters_def
  transactionFilters_def blockFilters_def factories_def isLogFactoryMatched_def
  factoryAddresses_def toLowerCase_def lowerChar_def syncBlockToLightBlock_def
  blockMovesFinality_def addChildAddresses_def childAddresses_def isTraceMatched_def
  isLogFilterMatched_def inRange_def topicAt_def

section \<open>Filter engine: value matching\<close>

lemma lowerChar_idem: "lowerChar (lowerChar c) = lowerChar c"
  by (cases c) (auto simp: lowerChar_def Let_def)

lemma toLowerCase_idem: "toLowerCase (toLowerCase s) = toLowerCase s"
  by (simp add: toLowerCase_def lowerChar_idem)

text \<open>
  C6, as stated, fails: \<open>isValueMatched\<close> lowercases the candidate only, so a constraint
  written with an uppercase letter is not matched by a candidate that equals it
  case-insensitively (nor by itself).
\<close>

theorem isValueMatched_uppercase_constraint:
  "\<not> isValueMatched (Single ''0xAB'') (Some ''0xab'')
   \<and> valueMatchSpec (Single ''0xAB'') (Some ''0xab'')"
  by code_simp

text \<open>
  C6, amended: for every constraint whose values are in lowercase, \<open>isValueMatched\<close> is
  the rule of the specification (absent, or equal to the candidate case-insensitively, or
  a list containing it case-insensitively); for every constraint, a missing candidate
  never matches a non-absent constraint, and the empty list matches no candidate.
\<close>

theorem isValueMatched_lowercased:
  "(lowercased fv \<longrightarrow> isValueMatched fv ev = valueMatchSpec fv ev)
   \<and> (fv \<noteq> Absent \<longrightarrow> \<not> isValueMatched fv None)
   \<and> \<not> isValueMatched (Many []) ev"
proof (intro conjI impI)
  assume lc: "lowercased fv"
  show "isValueMatched fv ev = valueMatchSpec fv ev"
  proof (cases ev)
    case None
    then show ?thesis by (cases fv) simp_all
  next
    case (Some e)
    show ?thesis
    proof (cases fv)
      case Absent
      then show ?thesis by simp
    next
      case (Single v)
      with lc Some show ?thesis
        by (simp add: ciEqual_def toLowerCase_idem)
    next
      case (Many vs)
      with lc Some show ?thesis
        by (auto simp: ciEqual_def toLowerCase_idem)
    qed
  qed
next
  assume "fv \<noteq> Absent"
  then show "\<not> isValueMatched fv None" by (cases fv) simp_all
next
  show "\<not> isValueMatched (Many []) ev" by (cases ev) simp_all
qed

theorem isValueMatched_lowercased_witness:
  "lowercased (Many [''0xab'', ''0xcd''])
   \<and> isValueMatched (Many [''0xab'', ''0xcd'']) (Some ''0xCD'')
   \<and> valueMatchSpec (Many [''0xab'', ''0xcd'']) (Some ''0xCD'')
   \<and> \<not> isValueMatched (Single ''0xab'') None"
proof -
  have lc: "lowercased (Many [''0xab'', ''0xcd''])" by code_simp
  have m: "isValueMatched (Many [''0xab'', ''0xcd'']) (Some ''0xCD'')" by code_simp
  from isValueMatched_lowercased [of "Many [''0xab'', ''0xcd'']" "Some ''0xCD''"] lc m
  have "valueMatchSpec (Many [''0xab'', ''0xcd'']) (Some ''0xCD'')" by blast
  moreover from isValueMatched_lowercased [of "Single ''0xab''" None]
  have "\<not> isValueMatched (Single ''0xab'') None" by blast
  ultimately show ?thesis using lc m by blast
qed

section \<open>Filter engine: transactions without \<open>to\<close>\<close>

text \<open>
  C5: the code at a contract creation (\<open>to\<close> missing) and a filter whose \<open>toAddress\<close> is
  the single address \<open>0xaa\<close>: the transaction is matched, where the claim has it rejected.
\<close>

theorem isTransactionFilterMatched_creation:
  "tx_to exCreation = None \<and> xf_toAddress exTxFilter = Plain (Single ''0xaa'')
   \<and> isTransactionFilterMatched exTxFilter 101 exCreation"
  by (simp add: isTransactionFilterMatched_def exTxFilter_def exCreation_def inRange_def
      truthy_def)

section \<open>The duplicate head\<close>

text \<open>
  C7: a queue item whose block hash is the hash of the current head (the last unfinalized
  block, or the finalized block when there is none) leaves the whole state as it was: no
  event, and \<open>unfinalizedBlocks\<close>, \<open>finalizedBlock\<close> and both child address maps unchanged.
  The worker run that takes it from the queue changes the queue only.
\<close>

theorem worker_duplicate_noop:
  assumes "lb_hash (getLatestUnfinalizedBlock s) = blk_hash (it_block it)"
  shows "worker cfg rpc s it = s
         \<and> (\<not> isKilled s \<and> queue s = it # rest
              \<longrightarrow> step cfg (Work rpc) s = s\<lparr>queue := rest\<rparr>)"
proof -
  have "getLatestUnfinalizedBlock (s\<lparr>queue := rest\<rparr>) = getLatestUnfinalizedBlock s"
    by (simp add: getLatestUnfinalizedBlock_def)
  with assms
  have "lb_hash (getLatestUnfinalizedBlock (s\<lparr>queue := rest\<rparr>)) = blk_hash (it_block it)"
    by simp
  then have "worker cfg rpc (s\<lparr>queue := rest\<rparr>) it = s\<lparr>queue := rest\<rparr>"
    by (simp add: worker_def)
  moreover have "worker cfg rpc s it = s"
    using assms by (simp add: worker_def)
  ultimately show ?thesis by simp
qed

theorem worker_duplicate_noop_witness:
  "lb_hash (getLatestUnfinalizedBlock exStart) = blk_hash (it_block exDuplicate)
   \<and> worker exConfig rpcDown exStart exDuplicate = exStart"
proof -
  have h: "lb_hash (getLatestUnfinalizedBlock exStart) = blk_hash (it_block exDuplicate)"
    by (simp add: ex_defs model_defs)
  from worker_duplicate_noop [OF h] h show ?thesis by blast
qed

section \<open>The chain invariant\<close>

lemma linked_consecutive: "linked prev bs \<Longrightarrow> consecutiveLinked bs"
proof (induction bs arbitrary: prev)
  case Nil
  then show ?case by simp
next
  case (Cons b bs)
  from Cons.prems have "linked b bs" by simp
  then have "consecutiveLinked bs" by (rule Cons.IH)
  with Cons.prems show ?case by (cases bs) simp_all
qed

lemma linked_chainInvariant:
  "linked (finalizedBlock s) (unfinalizedBlocks s) \<Longrightarrow> chainInvariant s"
  by (auto simp: chainInvariant_def linked_consecutive split: list.splits)

lemma linked_above: "linked prev bs \<Longrightarrow> x \<in> set bs \<Longrightarrow> lb_number prev < lb_number x"
  by (induction bs arbitrary: prev) fastforce+

lemma linked_filter_below:
  "linked prev bs \<Longrightarrow> linked prev (filter (\<lambda>lb. lb_number lb < n) bs)"
proof (induction bs arbitrary: prev)
  case Nil
  then show ?case by simp
next
  case (Cons b bs)
  show ?case
  proof (cases "lb_number b < n")
    case True
    with Cons show ?thesis by simp
  next
    case False
    have "\<forall>x \<in> set bs. \<not> lb_number x < n"
      using Cons.prems False linked_above[of b bs] by fastforce
    then have "filter (\<lambda>lb. lb_number lb < n) bs = []"
      by (simp add: filter_empty_conv)
    with False show ?thesis by simp
  qed
qed

lemma linked_butlast: "linked prev bs \<Longrightarrow> linked prev (butlast bs)"
  by (induction bs arbitrary: prev) auto

lemma linked_snoc:
  "linked prev (bs @ [b]) \<longleftrightarrow>
     linked prev bs \<and> lb_parentHash b = lb_hash (if bs = [] then prev else last bs)
       \<and> lb_number b = lb_number (if bs = [] then prev else last bs) + 1"
  by (induction bs arbitrary: prev) auto

lemma linked_filter_above:
  "linked prev bs \<Longrightarrow> p \<in> set bs \<Longrightarrow> linked p (filter (\<lambda>lb. lb_number lb > lb_number p) bs)"
proof (induction bs arbitrary: prev)
  case Nil
  then show ?case by simp
next
  case (Cons b bs)
  show ?case
  proof (cases "p = b")
    case True
    have "\<forall>x \<in> set bs. lb_number b < lb_number x"
      using Cons.prems(1) linked_above[of b bs] by simp
    then have "filter (\<lambda>lb. lb_number lb > lb_number b) bs = bs"
      by (simp add: filter_id_conv)
    with True Cons.prems show ?thesis by simp
  next
    case False
    with Cons.prems have pin: "p \<in> set bs" by simp
    then have "lb_number b < lb_number p"
      using Cons.prems(1) linked_above[of b bs p] by simp
    moreover have "linked p (filter (\<lambda>lb. lb_number lb > lb_number p) bs)"
      using Cons.IH[of b] Cons.prems(1) pin by simp
    ultimately show ?thesis by simp
  qed
qed

lemma walkBack_linked:
  "linked fin ubs \<Longrightarrow> walkBack rpc fin ubs reorged remote = (e, ubs', reorged')
     \<Longrightarrow> linked fin ubs'"
proof (induction rpc fin ubs reorged remote rule: walkBack.induct)
  case (1 rpc fin ubs reorged remote)
  show ?case
  proof (cases "lb_hash (if length ubs = 0 then fin else last ubs) = blk_parentHash remote")
    case True
    with "1.prems" show ?thesis by (simp add: walkBack.simps[of rpc fin ubs])
  next
    case nomatch: False
    show ?thesis
    proof (cases "length ubs = 0")
      case True
      with nomatch "1.prems" show ?thesis by (simp add: walkBack.simps[of rpc fin ubs])
    next
      case nonempty: False
      show ?thesis
      proof (cases "eth_getBlockByHash rpc (blk_parentHash remote)")
        case None
        with nomatch nonempty "1.prems" show ?thesis
          by (simp add: walkBack.simps[of rpc fin ubs])
      next
        case (Some r)
        with nomatch nonempty "1.prems"(2)
        have "walkBack rpc fin (butlast ubs) (reorged @ [last ubs]) r = (e, ubs', reorged')"
          by (simp add: walkBack.simps[of rpc fin ubs])
        moreover have "linked fin (butlast ubs)"
          using "1.prems"(1) by (rule linked_butlast)
        ultimately show ?thesis
          using "1.IH"[OF nomatch nonempty Some] by simp
      qed
    qed
  qed
qed

lemma handleReorg_linked:
  assumes "linked (finalizedBlock s) (unfinalizedBlocks s)"
  shows "linked (finalizedBlock (snd (handleReorg cfg rpc s b)))
           (unfinalizedBlocks (snd (handleReorg cfg rpc s b)))"
proof -
  let ?pruned = "filter (\<lambda>lb. lb_number lb < blk_number b) (unfinalizedBlocks s)"
  let ?reorged0 = "filter (\<lambda>lb. lb_number lb \<ge> blk_number b) (unfinalizedBlocks s)"
  obtain e ubs' reorged' where
    w: "walkBack rpc (finalizedBlock s) ?pruned ?reorged0 b = (e, ubs', reorged')"
    by (cases "walkBack rpc (finalizedBlock s) ?pruned ?reorged0 b") auto
  have "linked (finalizedBlock s) ?pruned"
    using assms by (rule linked_filter_below)
  then have "linked (finalizedBlock s) ubs'"
    using w by (rule walkBack_linked)
  then show ?thesis
    using w by (cases e) (simp_all add: handleReorg_def Let_def onEvent_def)
qed

lemma linked_has_number:
  "linked prev bs \<Longrightarrow> bs \<noteq> [] \<Longrightarrow> lb_number prev < k \<Longrightarrow> k \<le> lb_number (last bs)
     \<Longrightarrow> \<exists>p \<in> set bs. lb_number p = k"
proof (induction bs arbitrary: prev)
  case Nil
  then show ?case by simp
next
  case (Cons b bs)
  show ?case
  proof (cases "k = lb_number b")
    case True
    then show ?thesis by auto
  next
    case False
    with Cons.prems have k: "lb_number b < k" by simp
    with Cons.prems have ne: "bs \<noteq> []" by (cases bs) auto
    with Cons.prems have "k \<le> lb_number (last bs)" by simp
    with Cons.IH[of b] Cons.prems(1) ne k show ?thesis by auto
  qed
qed

lemma ingest_fields [simp]:
  "unfinalizedBlocks (ingest cfg s it) = unfinalizedBlocks s @ [syncBlockToLightBlock (it_block it)]"
  "finalizedBlock (ingest cfg s it) = finalizedBlock s"
  "finalizedChildAddresses (ingest cfg s it) = finalizedChildAddresses s"
  "factoryLogsPerBlock (ingest cfg s it) = factoryLogsPerBlock s"
  "emitted (ingest cfg s it) = emitted s @ [OnEvent (blockEvent cfg s it)]"
  "queue (ingest cfg s it) = queue s"
  "consecutiveErrors (ingest cfg s it) = consecutiveErrors s"
  "isKilled (ingest cfg s it) = isKilled s"
  by (simp_all add: ingest_def onEvent_def)

lemma ingest_linked:
  assumes "linked (finalizedBlock s) (unfinalizedBlocks s)" and "happyPath s it"
  shows "linked (finalizedBlock s) (unfinalizedBlocks (ingest cfg s it))"
  using assms
  by (auto simp: linked_snoc happyPath_def getLatestUnfinalizedBlock_def syncBlockToLightBlock_def)

lemma finalize_fields [simp]:
  "finalizedBlock (finalize cfg s p) = p"
  "unfinalizedBlocks (finalize cfg s p) = filter (\<lambda>lb. lb_number lb > lb_number p) (unfinalizedBlocks s)"
  "emitted (finalize cfg s p) = emitted s @ [OnEvent (FinalizeEvent p)]"
  "factoryLogsPerBlock (finalize cfg s p) =
     deleteBlocks (factoryLogsPerBlock s) (filter (\<lambda>lb. lb_number lb \<le> lb_number p) (unfinalizedBlocks s))"
  "queue (finalize cfg s p) = queue s"
  "consecutiveErrors (finalize cfg s p) = consecutiveErrors s"
  "isKilled (finalize cfg s p) = isKilled s"
  by (simp_all add: finalize_def onEvent_def Let_def)

lemma pending_in_set:
  "pendingFinalizedBlock cfg s b = Some p \<Longrightarrow> p \<in> set (unfinalizedBlocks s)"
  by (auto simp: pendingFinalizedBlock_def find_Some_iff)

lemma handleBlock_linked:
  assumes inv: "linked (finalizedBlock s) (unfinalizedBlocks s)" and hp: "happyPath s it"
  shows "linked (finalizedBlock (snd (handleBlock cfg s it)))
           (unfinalizedBlocks (snd (handleBlock cfg s it)))"
proof -
  let ?s1 = "ingest cfg s it"
  have l1: "linked (finalizedBlock ?s1) (unfinalizedBlocks ?s1)"
    using ingest_linked[OF inv hp] by simp
  show ?thesis
  proof (cases "blockMovesFinality cfg ?s1 (it_block it)")
    case False
    with l1 show ?thesis by (simp add: handleBlock_def Let_def)
  next
    case True
    show ?thesis
    proof (cases "pendingFinalizedBlock cfg ?s1 (it_block it)")
      case None
      with True l1 show ?thesis by (simp add: handleBlock_def Let_def)
    next
      case (Some p)
      then have "p \<in> set (unfinalizedBlocks ?s1)" by (rule pending_in_set)
      with l1 have "linked p (filter (\<lambda>lb. lb_number lb > lb_number p) (unfinalizedBlocks ?s1))"
        by (rule linked_filter_above)
      with True Some show ?thesis by (simp add: handleBlock_def Let_def)
    qed
  qed
qed

lemma gapFill_chain [simp]:
  "unfinalizedBlocks (snd (gapFill cfg rpc s it)) = unfinalizedBlocks s"
  "finalizedBlock (snd (gapFill cfg rpc s it)) = finalizedBlock s"
  by (auto simp: gapFill_def Let_def split: prod.splits)

lemma process_linked:
  assumes inv: "linked (finalizedBlock s) (unfinalizedBlocks s)"
    and neq: "lb_hash (getLatestUnfinalizedBlock s) \<noteq> blk_hash (it_block it)"
  shows "linked (finalizedBlock (snd (process cfg rpc s it)))
           (unfinalizedBlocks (snd (process cfg rpc s it)))"
proof -
  let ?latest = "getLatestUnfinalizedBlock s"
  let ?b = "it_block it"
  have reorg: "linked (finalizedBlock (snd (case handleReorg cfg rpc s ?b of
           (None, s1) \<Rightarrow> (None, s1\<lparr>queue := []\<rparr>)
         | (Some e, s1) \<Rightarrow> (Some e, s1))))
       (unfinalizedBlocks (snd (case handleReorg cfg rpc s ?b of
           (None, s1) \<Rightarrow> (None, s1\<lparr>queue := []\<rparr>)
         | (Some e, s1) \<Rightarrow> (Some e, s1))))"
    using handleReorg_linked[OF inv, of cfg rpc ?b]
    by (cases "handleReorg cfg rpc s ?b") (auto split: option.splits)
  consider (a) "lb_number ?latest \<ge> blk_number ?b"
    | (b) "\<not> lb_number ?latest \<ge> blk_number ?b" "lb_number ?latest + 1 < blk_number ?b"
    | (c) "\<not> lb_number ?latest \<ge> blk_number ?b" "\<not> lb_number ?latest + 1 < blk_number ?b"
          "blk_parentHash ?b \<noteq> lb_hash ?latest"
    | (d) "\<not> lb_number ?latest \<ge> blk_number ?b" "\<not> lb_number ?latest + 1 < blk_number ?b"
          "blk_parentHash ?b = lb_hash ?latest"
    by blast
  then show ?thesis
  proof cases
    case a
    with reorg show ?thesis by (simp add: process_def Let_def)
  next
    case b
    with inv show ?thesis by (simp add: process_def Let_def)
  next
    case c
    with reorg show ?thesis by (simp add: process_def Let_def)
  next
    case d
    then have hp: "happyPath s it" by (simp add: happyPath_def)
    from d handleBlock_linked[OF inv hp, of cfg] show ?thesis
      by (cases "handleBlock cfg s it") (auto simp: process_def Let_def split: option.splits)
  qed
qed

lemma workerCatch_chain [simp]:
  "unfinalizedBlocks (workerCatch e s) = unfinalizedBlocks s"
  "finalizedBlock (workerCatch e s) = finalizedBlock s"
  by (simp_all add: workerCatch_def Let_def)

lemma enqueueCatch_chain [simp]:
  "unfinalizedBlocks (enqueueCatch e s) = unfinalizedBlocks s"
  "finalizedBlock (enqueueCatch e s) = finalizedBlock s"
  by (simp_all add: enqueueCatch_def Let_def)

lemma worker_linked:
  assumes inv: "linked (finalizedBlock s) (unfinalizedBlocks s)"
  shows "linked (finalizedBlock (worker cfg rpc s it)) (unfinalizedBlocks (worker cfg rpc s it))"
proof (cases "lb_hash (getLatestUnfinalizedBlock s) = blk_hash (it_block it)")
  case True
  with inv show ?thesis by (simp add: worker_def)
next
  case False
  from process_linked[OF inv False, of cfg rpc] False show ?thesis
    by (cases "process cfg rpc s it") (auto simp: worker_def split: option.splits)
qed

lemma enqueue_chain [simp]:
  "unfinalizedBlocks (enqueue cfg rpc s) = unfinalizedBlocks s"
  "finalizedBlock (enqueue cfg rpc s) = finalizedBlock s"
  by (auto simp: enqueue_def split: option.splits prod.splits sum.splits)

lemma step_linked:
  assumes inv: "linked (finalizedBlock s) (unfinalizedBlocks s)"
  shows "linked (finalizedBlock (step cfg a s)) (unfinalizedBlocks (step cfg a s))"
proof (cases a)
  case (Poll rpc)
  with inv show ?thesis by simp
next
  case (Work rpc)
  show ?thesis
  proof (cases "queue s")
    case Nil
    with Work inv show ?thesis by simp
  next
    case (Cons it rest)
    have "linked (finalizedBlock (s\<lparr>queue := rest\<rparr>)) (unfinalizedBlocks (s\<lparr>queue := rest\<rparr>))"
      using inv by simp
    then have "linked (finalizedBlock (worker cfg rpc (s\<lparr>queue := rest\<rparr>) it))
                 (unfinalizedBlocks (worker cfg rpc (s\<lparr>queue := rest\<rparr>) it))"
      by (rule worker_linked)
    with Work Cons inv show ?thesis by simp
  qed
next
  case Kill
  with inv show ?thesis by (simp add: kill_def)
qed

lemma run_linked:
  "linked (finalizedBlock s) (unfinalizedBlocks s)
     \<Longrightarrow> linked (finalizedBlock (run cfg acts s)) (unfinalizedBlocks (run cfg acts s))"
  unfolding run_def
  by (induction acts arbitrary: s) (simp_all add: step_linked)

text \<open>
  C1: in every state that a run of the service reaches from \<open>start\<close> (polls, and worker
  runs taking the happy path with or without finalization, the gap fill or the reorg
  rewind, failed or not), any two consecutive entries \<open>a, b\<close> of \<open>unfinalizedBlocks\<close> have
  \<open>b.parentHash = a.hash\<close> and \<open>b.number = a.number + 1\<close>, and the first entry's
  \<open>parentHash\<close> is \<open>finalizedBlock.hash\<close>.
\<close>

theorem unfinalizedBlocks_chain:
  "chainInvariant (run cfg acts (start finalized initialChildAddresses))"
proof -
  have "linked (finalizedBlock (start finalized initialChildAddresses))
          (unfinalizedBlocks (start finalized initialChildAddresses))"
    by (simp add: start_def)
  then show ?thesis
    by (intro linked_chainInvariant run_linked)
qed

theorem unfinalizedBlocks_chain_witness:
  "chainInvariant (run exConfig exActs exStart)
   \<and> map lb_hash (unfinalizedBlocks (run exConfig exActs exStart)) = [''a1'', ''a2'', ''a3'']"
proof -
  have "map lb_hash (unfinalizedBlocks (run exConfig exActs exStart)) = [''a1'', ''a2'', ''a3'']"
    by (simp add: ex_defs model_defs Let_def)
  with unfinalizedBlocks_chain [of exConfig exActs "exLight 100 ''a0'' ''9f''" "\<lambda>f. {}"]
  show ?thesis by (simp add: exStart_def)
qed

section \<open>Finalization\<close>

lemma linked_split:
  "linked prev bs \<Longrightarrow> p \<in> set bs \<Longrightarrow>
     \<exists>before after. bs = before @ p # after
       \<and> filter (\<lambda>lb. lb_number lb \<le> lb_number p) bs = before @ [p]
       \<and> filter (\<lambda>lb. lb_number lb > lb_number p) bs = after"
proof (induction bs arbitrary: prev)
  case Nil
  then show ?case by simp
next
  case (Cons b bs)
  show ?case
  proof (cases "p = b")
    case True
    have above: "\<forall>x \<in> set bs. lb_number b < lb_number x"
      using Cons.prems(1) linked_above[of b bs] by simp
    then have "filter (\<lambda>lb. lb_number lb > lb_number b) bs = bs"
      by (simp add: filter_id_conv)
    moreover from above have "filter (\<lambda>lb. lb_number lb \<le> lb_number b) bs = []"
      by (auto simp: filter_empty_conv)
    ultimately have "b # bs = [] @ p # bs
        \<and> filter (\<lambda>lb. lb_number lb \<le> lb_number p) (b # bs) = [] @ [p]
        \<and> filter (\<lambda>lb. lb_number lb > lb_number p) (b # bs) = bs"
      using True by simp
    then show ?thesis by blast
  next
    case False
    with Cons.prems have pin: "p \<in> set bs" by simp
    then have lt: "lb_number b < lb_number p"
      using Cons.prems(1) linked_above[of b bs p] by simp
    from Cons.prems(1) have lb: "linked b bs" by simp
    from Cons.IH[OF lb pin] obtain before after where
      ih: "bs = before @ p # after"
          "filter (\<lambda>lb. lb_number lb \<le> lb_number p) bs = before @ [p]"
          "filter (\<lambda>lb. lb_number lb > lb_number p) bs = after"
      by blast
    from ih lt have "b # bs = (b # before) @ p # after
        \<and> filter (\<lambda>lb. lb_number lb \<le> lb_number p) (b # bs) = (b # before) @ [p]
        \<and> filter (\<lambda>lb. lb_number lb > lb_number p) (b # bs) = after"
      by simp
    then show ?thesis by blast
  qed
qed

lemma pending_found:
  assumes inv: "linked (finalizedBlock s) (unfinalizedBlocks s)" and hp: "happyPath s it"
    and mv: "blockMovesFinality cfg (ingest cfg s it) (it_block it)"
  shows "\<exists>p. pendingFinalizedBlock cfg (ingest cfg s it) (it_block it) = Some p
           \<and> lb_number p + finalityBlockCount cfg = blk_number (it_block it)"
proof -
  let ?s1 = "ingest cfg s it"
  let ?lb = "syncBlockToLightBlock (it_block it)"
  let ?n = "blk_number (it_block it)"
  let ?k = "?n - finalityBlockCount cfg"
  have l1: "linked (finalizedBlock s) (unfinalizedBlocks ?s1)"
    using ingest_linked[OF inv hp] .
  have last1: "lb_number (last (unfinalizedBlocks ?s1)) = ?n"
    by (simp add: syncBlockToLightBlock_def)
  have "?lb \<in> set (unfinalizedBlocks ?s1)" by simp
  with l1 have "lb_number (finalizedBlock s) < lb_number ?lb" by (rule linked_above)
  then have above: "lb_number (finalizedBlock s) < ?n" by (simp add: syncBlockToLightBlock_def)
  from mv have thr: "?n \<ge> lb_number (finalizedBlock s) + 2 * finalityBlockCount cfg"
    by (simp add: blockMovesFinality_def)
  with above have "lb_number (finalizedBlock s) < ?k" by arith
  moreover have "?k \<le> lb_number (last (unfinalizedBlocks ?s1))" using last1 by simp
  moreover have "unfinalizedBlocks ?s1 \<noteq> []" by simp
  ultimately obtain q where q: "q \<in> set (unfinalizedBlocks ?s1)" "lb_number q = ?k"
    using linked_has_number[OF l1] by blast
  from thr q have "int (lb_number q) = int ?n - int (finalityBlockCount cfg)" by simp
  with q(1) have "pendingFinalizedBlock cfg ?s1 (it_block it) \<noteq> None"
    unfolding pendingFinalizedBlock_def find_None_iff by blast
  then obtain p where p: "pendingFinalizedBlock cfg ?s1 (it_block it) = Some p" by auto
  then have "int (lb_number p) = int ?n - int (finalityBlockCount cfg)"
    by (auto simp: pendingFinalizedBlock_def find_Some_iff)
  then have "lb_number p + finalityBlockCount cfg = ?n" by simp
  with p show ?thesis by blast
qed

lemma finalize_children [simp]:
  "finalizedChildAddresses (finalize cfg s p) =
     (\<lambda>f. if f \<in> set (factories cfg)
           then finalizedChildAddresses s f
                \<union> blocksChildAddresses cfg (factoryLogsPerBlock s) f
                    (filter (\<lambda>lb. lb_number lb \<le> lb_number p) (unfinalizedBlocks s))
           else finalizedChildAddresses s f)"
  by (simp add: finalize_def onEvent_def Let_def)

lemma blocksChildAddresses_explicit:
  "blocksChildAddresses cfg cache f lbs =
     {a. \<exists>b \<in> set lbs. \<exists>ls. cache (lb_hash b) = Some ls
           \<and> (\<exists>l \<in> set ls. isLogFactoryMatched f l \<and> a = getChildAddress cfg l f)}"
proof (intro set_eqI iffI)
  fix a
  assume "a \<in> blocksChildAddresses cfg cache f lbs"
  then obtain b l where b: "b \<in> set lbs" and l: "l \<in> set (cachedLogs cache b)"
    and m: "isLogFactoryMatched f l" and a: "a = getChildAddress cfg l f"
    by (auto simp: blocksChildAddresses_def childAddresses_def)
  from l obtain ls where "cache (lb_hash b) = Some ls" "l \<in> set ls"
    by (cases "cache (lb_hash b)") (auto simp: cachedLogs_def)
  with b m a show "a \<in> {a. \<exists>b \<in> set lbs. \<exists>ls. cache (lb_hash b) = Some ls
           \<and> (\<exists>l \<in> set ls. isLogFactoryMatched f l \<and> a = getChildAddress cfg l f)}"
    by blast
next
  fix a
  assume "a \<in> {a. \<exists>b \<in> set lbs. \<exists>ls. cache (lb_hash b) = Some ls
           \<and> (\<exists>l \<in> set ls. isLogFactoryMatched f l \<and> a = getChildAddress cfg l f)}"
  then obtain b ls l where b: "b \<in> set lbs" and c: "cache (lb_hash b) = Some ls"
    and l: "l \<in> set ls" and m: "isLogFactoryMatched f l" and a: "a = getChildAddress cfg l f"
    by blast
  from c l have "l \<in> set (cachedLogs cache b)" by (simp add: cachedLogs_def)
  with b m a show "a \<in> blocksChildAddresses cfg cache f lbs"
    by (auto simp: blocksChildAddresses_def childAddresses_def)
qed

text \<open>
  C3: a happy-path ingest of a block with number \<open>n\<close>, in a state whose unfinalized
  blocks are linked to the finalized block (as they are in every reachable state, see
  \<open>run_linked\<close>), does not throw. If \<open>n \<ge> finalizedBlock.number + 2 * finalityBlockCount\<close>,
  the entry \<open>p\<close> of \<open>unfinalizedBlocks\<close> (the new block included) with number
  \<open>n - finalityBlockCount\<close> becomes \<open>finalizedBlock\<close>; \<open>p\<close> and the entries before it
  leave the list; \<open>finalizedChildAddresses\<close> of every registered factory gains exactly the
  child addresses \<open>getChildAddress\<close> decodes from the logs that \<open>factoryLogsPerBlock\<close> holds
  under the hashes of these blocks and that match the factory; the \<open>factoryLogsPerBlock\<close>
  entries of these blocks are gone; and after the \<open>block\<close> event a \<open>finalize\<close> event with
  \<open>p\<close> is emitted. Below the threshold \<open>finalizedBlock\<close> and \<open>finalizedChildAddresses\<close> stay
  and the \<open>block\<close> event is the only one.
\<close>

theorem handleBlock_finalization:
  assumes inv: "linked (finalizedBlock s) (unfinalizedBlocks s)" and hp: "happyPath s it"
  shows "fst (handleBlock cfg s it) = None
    \<and> (blk_number (it_block it) \<ge> lb_number (finalizedBlock s) + 2 * finalityBlockCount cfg \<longrightarrow>
         (\<exists>p before after.
            unfinalizedBlocks s @ [syncBlockToLightBlock (it_block it)] = before @ p # after
            \<and> lb_number p + finalityBlockCount cfg = blk_number (it_block it)
            \<and> finalizedBlock (snd (handleBlock cfg s it)) = p
            \<and> unfinalizedBlocks (snd (handleBlock cfg s it)) = after
            \<and> (\<forall>f \<in> set (factories cfg).
                  finalizedChildAddresses (snd (handleBlock cfg s it)) f =
                    finalizedChildAddresses s f
                    \<union> {a. \<exists>b \<in> set (before @ [p]). \<exists>ls.
                            factoryLogsPerBlock s (lb_hash b) = Some ls
                            \<and> (\<exists>l \<in> set ls. isLogFactoryMatched f l
                                   \<and> a = getChildAddress cfg l f)})
            \<and> (\<forall>b \<in> set (before @ [p]).
                  factoryLogsPerBlock (snd (handleBlock cfg s it)) (lb_hash b) = None)
            \<and> emitted (snd (handleBlock cfg s it)) =
                emitted s @ [OnEvent (blockEvent cfg s it), OnEvent (FinalizeEvent p)]))
    \<and> (blk_number (it_block it) < lb_number (finalizedBlock s) + 2 * finalityBlockCount cfg \<longrightarrow>
         finalizedBlock (snd (handleBlock cfg s it)) = finalizedBlock s
         \<and> finalizedChildAddresses (snd (handleBlock cfg s it)) = finalizedChildAddresses s
         \<and> emitted (snd (handleBlock cfg s it)) = emitted s @ [OnEvent (blockEvent cfg s it)])"
proof (cases "blockMovesFinality cfg (ingest cfg s it) (it_block it)")
  case False
  then have "blk_number (it_block it) < lb_number (finalizedBlock s) + 2 * finalityBlockCount cfg"
    by (simp add: blockMovesFinality_def)
  with False show ?thesis by (simp add: handleBlock_def Let_def)
next
  case True
  let ?s1 = "ingest cfg s it"
  from pending_found[OF inv hp True] obtain p where
    p: "pendingFinalizedBlock cfg ?s1 (it_block it) = Some p"
       "lb_number p + finalityBlockCount cfg = blk_number (it_block it)"
    by blast
  have hb: "handleBlock cfg s it = (None, finalize cfg ?s1 p)"
    using True p(1) by (simp add: handleBlock_def Let_def)
  have l1: "linked (finalizedBlock s) (unfinalizedBlocks ?s1)"
    using ingest_linked[OF inv hp] .
  from p(1) have "p \<in> set (unfinalizedBlocks ?s1)" by (rule pending_in_set)
  from linked_split[OF l1 this] obtain before after where
    sp: "unfinalizedBlocks ?s1 = before @ p # after"
        "filter (\<lambda>lb. lb_number lb \<le> lb_number p) (unfinalizedBlocks ?s1) = before @ [p]"
        "filter (\<lambda>lb. lb_number lb > lb_number p) (unfinalizedBlocks ?s1) = after"
    by blast
  have thr: "blk_number (it_block it) \<ge> lb_number (finalizedBlock s) + 2 * finalityBlockCount cfg"
    using True by (simp add: blockMovesFinality_def)
  have c1: "unfinalizedBlocks s @ [syncBlockToLightBlock (it_block it)] = before @ p # after"
    using sp(1) by simp
  have c2: "finalizedBlock (snd (handleBlock cfg s it)) = p" using hb by simp
  have c3: "unfinalizedBlocks (snd (handleBlock cfg s it)) = after"
    using hb sp(3) by simp
  have "\<forall>f \<in> set (factories cfg).
      finalizedChildAddresses (snd (handleBlock cfg s it)) f =
        finalizedChildAddresses s f
        \<union> blocksChildAddresses cfg (factoryLogsPerBlock s) f (before @ [p])"
    using hb sp(2) by simp
  then have c4: "\<forall>f \<in> set (factories cfg).
      finalizedChildAddresses (snd (handleBlock cfg s it)) f =
        finalizedChildAddresses s f
        \<union> {a. \<exists>b \<in> set (before @ [p]). \<exists>ls.
                factoryLogsPerBlock s (lb_hash b) = Some ls
                \<and> (\<exists>l \<in> set ls. isLogFactoryMatched f l
                       \<and> a = getChildAddress cfg l f)}"
    by (simp only: blocksChildAddresses_explicit)
  have c5: "\<forall>b \<in> set (before @ [p]).
      factoryLogsPerBlock (snd (handleBlock cfg s it)) (lb_hash b) = None"
    using hb sp(2) by (simp add: deleteBlocks_def)
  have c6: "emitted (snd (handleBlock cfg s it)) =
      emitted s @ [OnEvent (blockEvent cfg s it), OnEvent (FinalizeEvent p)]"
    using hb by simp
  have ex: "\<exists>p before after.
            unfinalizedBlocks s @ [syncBlockToLightBlock (it_block it)] = before @ p # after
            \<and> lb_number p + finalityBlockCount cfg = blk_number (it_block it)
            \<and> finalizedBlock (snd (handleBlock cfg s it)) = p
            \<and> unfinalizedBlocks (snd (handleBlock cfg s it)) = after
            \<and> (\<forall>f \<in> set (factories cfg).
                  finalizedChildAddresses (snd (handleBlock cfg s it)) f =
                    finalizedChildAddresses s f
                    \<union> {a. \<exists>b \<in> set (before @ [p]). \<exists>ls.
                            factoryLogsPerBlock s (lb_hash b) = Some ls
                            \<and> (\<exists>l \<in> set ls. isLogFactoryMatched f l
                                   \<and> a = getChildAddress cfg l f)})
            \<and> (\<forall>b \<in> set (before @ [p]).
                  factoryLogsPerBlock (snd (handleBlock cfg s it)) (lb_hash b) = None)
            \<and> emitted (snd (handleBlock cfg s it)) =
                emitted s @ [OnEvent (blockEvent cfg s it), OnEvent (FinalizeEvent p)]"
    by (intro exI[of _ p] exI[of _ before] exI[of _ after] conjI c1 p(2) c2 c3 c4 c5 c6)
  have "fst (handleBlock cfg s it) = None" using hb by simp
  with ex thr show ?thesis by simp
qed

theorem handleBlock_finalization_witness:
  "linked (finalizedBlock (run exConfig exActs exStart)) (unfinalizedBlocks (run exConfig exActs exStart))
   \<and> happyPath (run exConfig exActs exStart) exItem104
   \<and> blk_number (it_block exItem104)
        \<ge> lb_number (finalizedBlock (run exConfig exActs exStart)) + 2 * finalityBlockCount exConfig
   \<and> fst (handleBlock exConfig (run exConfig exActs exStart) exItem104) = None
   \<and> finalizedBlock (snd (handleBlock exConfig (run exConfig exActs exStart) exItem104))
       = exLight 102 ''a2'' ''a1''
   \<and> unfinalizedBlocks (snd (handleBlock exConfig (run exConfig exActs exStart) exItem104))
       = [exLight 103 ''a3'' ''a2'', exLight 104 ''a4'' ''a3'']
   \<and> finalizedChildAddresses (run exConfig exActs exStart) exFactory = {}
   \<and> finalizedChildAddresses (snd (handleBlock exConfig (run exConfig exActs exStart) exItem104))
        exFactory = {''0xc2''}
   \<and> factoryLogsPerBlock (run exConfig exActs exStart) ''a2'' \<noteq> None
   \<and> factoryLogsPerBlock (snd (handleBlock exConfig (run exConfig exActs exStart) exItem104)) ''a2''
       = None"
proof -
  let ?s = "run exConfig exActs exStart"
  let ?s' = "snd (handleBlock exConfig ?s exItem104)"
  let ?l1 = "exLight 101 ''a1'' ''a0''" let ?l2 = "exLight 102 ''a2'' ''a1''"
  let ?l3 = "exLight 103 ''a3'' ''a2''" let ?l4 = "exLight 104 ''a4'' ''a3''"
  have ubs: "unfinalizedBlocks ?s = [?l1, ?l2, ?l3]"
    by (simp add: ex_defs model_defs Let_def)
  have fin: "finalizedBlock ?s = exLight 100 ''a0'' ''9f''"
    by (simp add: ex_defs model_defs Let_def)
  have fca: "finalizedChildAddresses ?s exFactory = {}"
    by (simp add: ex_defs model_defs Let_def)
  have cache: "factoryLogsPerBlock ?s = [''a2'' \<mapsto> [exFactoryLog ''a2'' ''0xc2'']]"
    by (simp add: ex_defs model_defs Let_def)
  have fac: "exFactory \<in> set (factories exConfig)"
    by (simp add: factories_def exConfig_def exLogFilter_def)
  have inv: "linked (finalizedBlock ?s) (unfinalizedBlocks ?s)"
    by (simp add: ubs fin exLight_def)
  have hp: "happyPath ?s exItem104"
    by (simp add: happyPath_def getLatestUnfinalizedBlock_def ubs fin exLight_def exItem104_def exBlock_def)
  have fbc: "finalityBlockCount exConfig = 2" by (simp add: exConfig_def)
  have thr: "blk_number (it_block exItem104)
        \<ge> lb_number (finalizedBlock ?s) + 2 * finalityBlockCount exConfig"
    by (simp add: fin fbc exLight_def exItem104_def exBlock_def)
  have lb4: "syncBlockToLightBlock (it_block exItem104) = ?l4"
    by (simp add: syncBlockToLightBlock_def exItem104_def exBlock_def exLight_def)
  from handleBlock_finalization [OF inv hp, of exConfig] thr
  obtain p before after where
    r: "fst (handleBlock exConfig ?s exItem104) = None"
       "unfinalizedBlocks ?s @ [syncBlockToLightBlock (it_block exItem104)] = before @ p # after"
       "lb_number p + finalityBlockCount exConfig = blk_number (it_block exItem104)"
       "finalizedBlock ?s' = p"
       "unfinalizedBlocks ?s' = after"
       "\<forall>f \<in> set (factories exConfig).
           finalizedChildAddresses ?s' f =
             finalizedChildAddresses ?s f
             \<union> {a. \<exists>b \<in> set (before @ [p]). \<exists>ls.
                     factoryLogsPerBlock ?s (lb_hash b) = Some ls
                     \<and> (\<exists>l \<in> set ls. isLogFactoryMatched f l
                            \<and> a = getChildAddress exConfig l f)}"
       "\<forall>b \<in> set (before @ [p]). factoryLogsPerBlock ?s' (lb_hash b) = None"
    by blast
  have chain: "[?l1, ?l2, ?l3, ?l4] = before @ p # after"
    using r(2) by (simp add: ubs lb4)
  have num: "lb_number p = 102"
    using r(3) by (simp add: fbc exItem104_def exBlock_def)
  from chain have "p \<in> set [?l1, ?l2, ?l3, ?l4]" by (metis in_set_conv_decomp)
  with num have p: "p = ?l2" by (auto simp: exLight_def)
  have split: "before = [?l1] \<and> after = [?l3, ?l4]"
    using chain unfolding p
    by (auto simp: append_eq_Cons_conv Cons_eq_append_conv exLight_def)
  have promoted: "{a. \<exists>b \<in> set (before @ [p]). \<exists>ls.
                     factoryLogsPerBlock ?s (lb_hash b) = Some ls
                     \<and> (\<exists>l \<in> set ls. isLogFactoryMatched exFactory l
                            \<and> a = getChildAddress exConfig l exFactory)} = {''0xc2''}"
    unfolding cache using split p
    by (auto simp: exLight_def exFactoryLog_def exFactory_def exConfig_def
        isLogFactoryMatched_def factoryAddresses_def toLowerCase_def lowerChar_def)
  from bspec[OF r(6) fac] have "finalizedChildAddresses ?s' exFactory = {''0xc2''}"
    unfolding promoted fca by simp
  moreover from r(7) split p have "factoryLogsPerBlock ?s' ''a2'' = None"
    by (auto simp: exLight_def)
  moreover have "factoryLogsPerBlock ?s ''a2'' \<noteq> None" by (simp add: cache)
  ultimately show ?thesis
    using inv hp thr r(1) r(4) r(5) p split fca by simp
qed

section \<open>The transactions of the \<open>block\<close> event\<close>

lemma handleBlock_emitted:
  "\<exists>rest. emitted (snd (handleBlock cfg s it)) = emitted s @ OnEvent (blockEvent cfg s it) # rest"
  by (auto simp: handleBlock_def Let_def split: option.splits)

lemma filter_twice: "filter P (filter (\<lambda>x. P x \<or> Q x) xs) = filter P xs"
  by (induction xs) auto

lemma eventData_fields:
  "it_logs (eventData cfg s it) = matchedLogs cfg s it"
  "it_traces (eventData cfg s it) = matchedTraces cfg it"
  "it_transactions (eventData cfg s it) = filteredTransactions cfg s it"
  by (simp_all add: eventData_def)

lemma filteredTransactions_eq:
  "filteredTransactions cfg s it =
     filter (\<lambda>t. tx_hash t \<in> transactionHashes cfg s it) (it_transactions it)"
  unfolding filteredTransactions_def by (rule filter_twice)

lemma transactionHashes_eq:
  "transactionHashes cfg s it =
     log_transactionHash ` set (matchedLogs cfg s it)
     \<union> tr_transactionHash ` set (matchedTraces cfg it)"
  by (simp add: transactionHashes_def)

lemma matchedFilters_transaction:
  "t \<in> set (it_transactions it) \<Longrightarrow> f \<in> set (transactionFilters cfg)
     \<Longrightarrow> isTransactionFilterMatched f (blk_number (it_block it)) t
     \<Longrightarrow> TransactionF f \<in> matchedFilters cfg s it"
  unfolding matchedFilters_def by (intro UnI1 UnI2 imageI) auto

text \<open>
  C10: the \<open>block\<close> event that \<open>handleBlock\<close> emits carries the matched logs and traces,
  and as transactions exactly those of the item whose hash is the transaction hash of one
  of these logs or traces. A transaction matched by a transaction filter but referenced by
  no such log or trace is not among them, although its filter is in the event's set of
  matched filters.
\<close>

theorem handleBlock_transactions:
  "\<exists>fs d. emitted (snd (handleBlock cfg s it)) ! length (emitted s) = OnEvent (BlockEvent fs d)
     \<and> it_logs d = matchedLogs cfg s it \<and> it_traces d = matchedTraces cfg it
     \<and> it_transactions d =
         filter (\<lambda>t. tx_hash t \<in> log_transactionHash ` set (it_logs d)
                                  \<union> tr_transactionHash ` set (it_traces d))
           (it_transactions it)
     \<and> (\<forall>t \<in> set (it_transactions it). \<forall>f \<in> set (transactionFilters cfg).
           isTransactionFilterMatched f (blk_number (it_block it)) t
           \<and> tx_hash t \<notin> log_transactionHash ` set (it_logs d)
                            \<union> tr_transactionHash ` set (it_traces d)
           \<longrightarrow> t \<notin> set (it_transactions d) \<and> TransactionF f \<in> fs)"
proof (intro exI conjI ballI impI)
  from handleBlock_emitted obtain rest where
    "emitted (snd (handleBlock cfg s it)) = emitted s @ OnEvent (blockEvent cfg s it) # rest"
    by blast
  then show "emitted (snd (handleBlock cfg s it)) ! length (emitted s)
      = OnEvent (BlockEvent (matchedFilters cfg s it) (eventData cfg s it))"
    by (simp add: blockEvent_def)
next
  show "it_logs (eventData cfg s it) = matchedLogs cfg s it" by (rule eventData_fields)
next
  show "it_traces (eventData cfg s it) = matchedTraces cfg it" by (rule eventData_fields)
next
  show "it_transactions (eventData cfg s it) =
      filter (\<lambda>t. tx_hash t \<in> log_transactionHash ` set (it_logs (eventData cfg s it))
                               \<union> tr_transactionHash ` set (it_traces (eventData cfg s it)))
        (it_transactions it)"
    by (simp only: eventData_fields filteredTransactions_eq transactionHashes_eq)
next
  fix t f
  assume "isTransactionFilterMatched f (blk_number (it_block it)) t
           \<and> tx_hash t \<notin> log_transactionHash ` set (it_logs (eventData cfg s it))
                            \<union> tr_transactionHash ` set (it_traces (eventData cfg s it))"
  then have "tx_hash t \<notin> transactionHashes cfg s it"
    by (simp add: eventData_fields transactionHashes_eq)
  then show "t \<notin> set (it_transactions (eventData cfg s it))"
    by (simp add: eventData_fields filteredTransactions_eq)
next
  fix t f
  assume "t \<in> set (it_transactions it)" "f \<in> set (transactionFilters cfg)"
    "isTransactionFilterMatched f (blk_number (it_block it)) t
           \<and> tx_hash t \<notin> log_transactionHash ` set (it_logs (eventData cfg s it))
                            \<union> tr_transactionHash ` set (it_traces (eventData cfg s it))"
  then show "TransactionF f \<in> matchedFilters cfg s it"
    by (blast intro: matchedFilters_transaction)
qed

theorem handleBlock_transactions_witness:
  "\<exists>fs d. emitted (snd (handleBlock exConfigTx exStart exItemTx)) ! length (emitted exStart)
             = OnEvent (BlockEvent fs d)
     \<and> isTransactionFilterMatched exFromFilter (blk_number (it_block exItemTx)) exTxPlain
     \<and> it_transactions d = [exTxLogged]
     \<and> exTxPlain \<notin> set (it_transactions d) \<and> TransactionF exFromFilter \<in> fs"
proof -
  from handleBlock_transactions [of exConfigTx exStart exItemTx] obtain fs d where
    r: "emitted (snd (handleBlock exConfigTx exStart exItemTx)) ! length (emitted exStart)
          = OnEvent (BlockEvent fs d)"
       "it_logs d = matchedLogs exConfigTx exStart exItemTx"
       "it_traces d = matchedTraces exConfigTx exItemTx"
       "it_transactions d =
          filter (\<lambda>t. tx_hash t \<in> log_transactionHash ` set (it_logs d)
                                   \<union> tr_transactionHash ` set (it_traces d))
            (it_transactions exItemTx)"
       "\<forall>t \<in> set (it_transactions exItemTx). \<forall>f \<in> set (transactionFilters exConfigTx).
           isTransactionFilterMatched f (blk_number (it_block exItemTx)) t
           \<and> tx_hash t \<notin> log_transactionHash ` set (it_logs d)
                            \<union> tr_transactionHash ` set (it_traces d)
           \<longrightarrow> t \<notin> set (it_transactions d) \<and> TransactionF f \<in> fs"
    by blast
  have logs: "log_transactionHash ` set (matchedLogs exConfigTx exStart exItemTx) = {''0x77''}"
    by (simp add: matchedLogs_def isLogMatched_def ex_defs model_defs)
  have traces: "matchedTraces exConfigTx exItemTx = []"
    by (simp add: matchedTraces_def ex_defs)
  have m: "isTransactionFilterMatched exFromFilter (blk_number (it_block exItemTx)) exTxPlain"
    by (simp add: isTransactionFilterMatched_def truthy_def ex_defs inRange_def toLowerCase_def lowerChar_def)
  have txs: "it_transactions d = [exTxLogged]"
    using r(4) by (simp add: r(2) r(3) logs traces) (simp add: ex_defs)
  have "exTxPlain \<in> set (it_transactions exItemTx)" by (simp add: ex_defs)
  moreover have "exFromFilter \<in> set (transactionFilters exConfigTx)"
    by (simp add: transactionFilters_def exConfigTx_def)
  moreover have "tx_hash exTxPlain \<notin> log_transactionHash ` set (it_logs d)
                            \<union> tr_transactionHash ` set (it_traces d)"
    by (simp add: r(2) r(3) logs traces) (simp add: ex_defs)
  ultimately have "exTxPlain \<notin> set (it_transactions d) \<and> TransactionF exFromFilter \<in> fs"
    using r(5) m by blast
  with r(1) m txs show ?thesis by blast
qed

section \<open>The error counter of the poller and the worker\<close>

text \<open>
  C8: the code at a reachable state. A poll enqueues block 103 on top of the finalized
  block 100 and the worker's gap fill fails: the counter is 1. A failed poll then makes it
  2, and a successful poll makes it 0. Three rounds of successful poll and failing worker
  leave it at 1, with nothing handed to \<open>onFatalError\<close>.
\<close>

theorem consecutiveErrors_shared:
  "consecutiveErrors (run exConfig [Poll (exRpc exChain exLogs ''a3''), Work rpcDown] exStart) = 1
   \<and> consecutiveErrors (run exConfig [Poll (exRpc exChain exLogs ''a3''), Work rpcDown,
        Poll rpcDown] exStart) = 2
   \<and> consecutiveErrors (run exConfig [Poll (exRpc exChain exLogs ''a3''), Work rpcDown,
        Poll (exRpc exChain exLogs ''a3'')] exStart) = 0
   \<and> consecutiveErrors (run exConfig [Poll (exRpc exChain exLogs ''a3''), Work rpcDown,
        Poll (exRpc exChain exLogs ''a3''), Work rpcDown,
        Poll (exRpc exChain exLogs ''a3''), Work rpcDown] exStart) = 1
   \<and> emitted (run exConfig [Poll (exRpc exChain exLogs ''a3''), Work rpcDown,
        Poll (exRpc exChain exLogs ''a3''), Work rpcDown,
        Poll (exRpc exChain exLogs ''a3''), Work rpcDown] exStart) = []"
  by (simp add: ex_defs model_defs Let_def gapFill_def rejection_def MAX_QUEUED_BLOCKS_def
      workerCatch_def enqueueCatch_def ERROR_TIMEOUT_def)

section \<open>The reorg rewind\<close>

















section \<open>Child addresses after a failed reorg\<close>

text \<open>
  C2: the code at a reachable state. Blocks 101 and 102 are ingested, 102 with a factory
  log giving the child \<open>0xc2\<close>; the fork block 102 arrives and the request for its parent
  fails. The worker's \<open>catch\<close> leaves \<open>unfinalizedBlocks\<close> pruned to block 101, whose
  cached factory logs give no child, while \<open>unfinalizedChildAddresses\<close> still holds \<open>0xc2\<close>.
\<close>

theorem failed_reorg_stale_children:
  "exFactory \<in> set (factories exConfig)
   \<and> map lb_hash (unfinalizedBlocks (run exConfig exActsFork exStart)) = [''a1'']
   \<and> unfinalizedChildAddresses (run exConfig exActsFork exStart) exFactory = {''0xc2''}
   \<and> blocksChildAddresses exConfig (factoryLogsPerBlock (run exConfig exActsFork exStart))
        exFactory (unfinalizedBlocks (run exConfig exActsFork exStart)) = {}"
  by (simp add: exActsFork_def ex2_defs ex_defs model_defs Let_def handleReorg_def walkBack.simps
      workerCatch_def ERROR_TIMEOUT_def blocksChildAddresses_def cachedLogs_def)

section \<open>The event builder\<close>

lemma set_insertEvent: "set (insertEvent x ys) = insert x (set ys)"
  by (induction ys) auto

lemma sorted_insertEvent:
  "sorted (map re_checkpoint ys) \<Longrightarrow> sorted (map re_checkpoint (insertEvent x ys))"
  by (induction ys) (auto simp: compareFn_def set_insertEvent)

lemma fold_insertEvent:
  "sorted (map re_checkpoint acc) \<Longrightarrow>
     sorted (map re_checkpoint (fold insertEvent evs acc))
     \<and> set (fold insertEvent evs acc) = set evs \<union> set acc"
  by (induction evs arbitrary: acc) (auto simp: sorted_insertEvent set_insertEvent)

lemma sortEvents_sorted: "sorted (map re_checkpoint (sortEvents evs))"
  and set_sortEvents: "set (sortEvents evs) = set evs"
  using fold_insertEvent[of "[]" evs] by (simp_all add: sortEvents_def)

lemma collect_mem:
  "collect g xs = Inr evs \<Longrightarrow> e \<in> set evs \<Longrightarrow> \<exists>x \<in> set xs. g x = Some (Inr e)"
proof (induction xs arbitrary: evs)
  case Nil
  then show ?case by simp
next
  case (Cons x xs)
  then show ?case
    by (auto split: option.splits sum.splits)
qed

lemma sourceEvents_index:
  "sourceEvents lib d fin unfin i src = Inr evs \<Longrightarrow> e \<in> set evs \<Longrightarrow> re_sourceIndex e = i"
proof (cases src)
  case (ContractLog f)
  assume "sourceEvents lib d fin unfin i src = Inr evs" "e \<in> set evs"
  with ContractLog obtain l where "logEvent lib d fin unfin i f l = Some (Inr e)"
    using collect_mem[of "logEvent lib d fin unfin i f" "it_logs d" evs e] by auto
  then show ?thesis
    by (auto simp: logEvent_def split: if_splits option.splits)
next
  case (ContractTrace f)
  assume "sourceEvents lib d fin unfin i src = Inr evs" "e \<in> set evs"
  with ContractTrace obtain t where "traceEvent lib d i (cf_chainId f) t = Inr e"
    by (auto dest!: collect_mem split: if_splits)
  then show ?thesis by (auto simp: traceEvent_def split: option.splits)
next
  case (AccountTransaction f)
  assume "sourceEvents lib d fin unfin i src = Inr evs" "e \<in> set evs"
  with AccountTransaction obtain t where "transactionEvent lib d i f t = e"
    by (auto dest!: collect_mem split: if_splits)
  then show ?thesis by (auto simp: transactionEvent_def)
next
  case (AccountTransfer f)
  assume "sourceEvents lib d fin unfin i src = Inr evs" "e \<in> set evs"
  with AccountTransfer obtain t where "traceEvent lib d i (rf_chainId f) t = Inr e"
    by (auto dest!: collect_mem split: if_splits)
  then show ?thesis by (auto simp: traceEvent_def split: option.splits)
next
  case (BlockSource f)
  assume "sourceEvents lib d fin unfin i src = Inr evs" "e \<in> set evs"
  with BlockSource show ?thesis by (auto simp: blockFilterEvent_def split: if_splits)
qed

lemma sourceEvents_block:
  "sourceEvents lib d fin unfin i (BlockSource f) = Inr evs \<Longrightarrow> e \<in> set evs
     \<Longrightarrow> re_checkpoint e = blockCheckpoint lib (it_block d) f"
  by (auto simp: blockFilterEvent_def blockCheckpoint_def split: if_splits)

lemma eventsFrom_mem:
  "eventsFrom lib d fin unfin chainId i srcs = Inr evs \<Longrightarrow> e \<in> set evs \<Longrightarrow>
     i \<le> re_sourceIndex e \<and> re_sourceIndex e < i + length srcs
     \<and> (\<forall>f. srcs ! (re_sourceIndex e - i) = BlockSource f
            \<longrightarrow> re_checkpoint e = blockCheckpoint lib (it_block d) f)"
proof (induction srcs arbitrary: i evs)
  case Nil
  then show ?case by simp
next
  case (Cons src rest)
  let ?here = "if chainId \<noteq> sourceChainId src then Inr [] else sourceEvents lib d fin unfin i src"
  from Cons.prems(1) obtain evs1 later where
    h: "?here = Inr evs1" and m: "eventsFrom lib d fin unfin chainId (i + 1) rest = Inr later"
    and ev: "evs = evs1 @ later"
    by (auto split: sum.splits)
  from Cons.prems(2) ev consider (a) "e \<in> set evs1" | (b) "e \<in> set later" by auto
  then show ?case
  proof cases
    case a
    with h have se: "sourceEvents lib d fin unfin i src = Inr evs1"
      by (auto split: if_splits)
    from sourceEvents_index[OF se a] have idx: "re_sourceIndex e = i" .
    have "\<forall>f. src = BlockSource f \<longrightarrow> re_checkpoint e = blockCheckpoint lib (it_block d) f"
      using se a sourceEvents_block by blast
    with idx show ?thesis by simp
  next
    case b
    from Cons.IH[OF m b] have ih: "i + 1 \<le> re_sourceIndex e"
      "re_sourceIndex e < i + 1 + length rest"
      "\<forall>f. rest ! (re_sourceIndex e - (i + 1)) = BlockSource f
            \<longrightarrow> re_checkpoint e = blockCheckpoint lib (it_block d) f"
      by auto
    from ih(1) have "re_sourceIndex e - i = Suc (re_sourceIndex e - (i + 1))" by simp
    then have "(src # rest) ! (re_sourceIndex e - i) = rest ! (re_sourceIndex e - (i + 1))"
      by simp
    with ih show ?thesis by simp
  qed
qed

lemma eventsFrom_block_present:
  "eventsFrom lib d fin unfin chainId i srcs = Inr evs \<Longrightarrow> k < length srcs
     \<Longrightarrow> srcs ! k = BlockSource f \<Longrightarrow> bf_chainId f = chainId
     \<Longrightarrow> isBlockFilterMatched f (it_block d)
     \<Longrightarrow> blockFilterEvent lib d (i + k) f \<in> set evs"
proof (induction srcs arbitrary: i evs k)
  case Nil
  then show ?case by simp
next
  case (Cons src rest)
  let ?here = "if chainId \<noteq> sourceChainId src then Inr [] else sourceEvents lib d fin unfin i src"
  from Cons.prems(1) obtain evs1 later where
    h: "?here = Inr evs1" and m: "eventsFrom lib d fin unfin chainId (i + 1) rest = Inr later"
    and ev: "evs = evs1 @ later"
    by (auto split: sum.splits)
  show ?case
  proof (cases k)
    case 0
    with Cons.prems h have "evs1 = [blockFilterEvent lib d i f]" by simp
    with ev 0 show ?thesis by simp
  next
    case (Suc k')
    with Cons.prems have "k' < length rest" "rest ! k' = BlockSource f" by simp_all
    from Cons.IH[OF m this Cons.prems(4,5)] ev Suc show ?thesis by simp
  qed
qed

text \<open>
  C9: the list that \<open>buildEvents\<close> returns is sorted ascending by checkpoint. Every event
  in it comes from a source of the list, and one that comes from a block source has the
  block-level checkpoint: sentinel maximum \<open>transactionIndex\<close>, zero \<open>eventIndex\<close>. Every
  block filter of the chain that matches the block has such an event. (\<open>buildEvents\<close>
  returns unless a matched log or trace names a transaction that the data lacks.)
\<close>

theorem buildEvents_sorted:
  assumes "buildEvents lib srcs d fin unfin chainId = Inr evs"
  shows "sorted (map re_checkpoint evs)
    \<and> (\<forall>e \<in> set evs. re_sourceIndex e < length srcs
          \<and> (\<forall>f. srcs ! re_sourceIndex e = BlockSource f \<longrightarrow>
                re_checkpoint e = blockCheckpoint lib (it_block d) f))
    \<and> (\<forall>k < length srcs. \<forall>f. srcs ! k = BlockSource f \<and> bf_chainId f = chainId
          \<and> isBlockFilterMatched f (it_block d) \<longrightarrow>
          (\<exists>e \<in> set evs. re_sourceIndex e = k
              \<and> re_checkpoint e = blockCheckpoint lib (it_block d) f))"
proof -
  from assms obtain raw where raw: "eventsFrom lib d fin unfin chainId 0 srcs = Inr raw"
    and evs: "evs = sortEvents raw"
    by (auto simp: buildEvents_def split: sum.splits)
  have s: "set evs = set raw" by (simp add: evs set_sortEvents)
  have "sorted (map re_checkpoint evs)" by (simp add: evs sortEvents_sorted)
  moreover have "\<forall>e \<in> set evs. re_sourceIndex e < length srcs
          \<and> (\<forall>f. srcs ! re_sourceIndex e = BlockSource f \<longrightarrow>
                re_checkpoint e = blockCheckpoint lib (it_block d) f)"
    using eventsFrom_mem[OF raw] s by fastforce
  moreover have "\<forall>k < length srcs. \<forall>f. srcs ! k = BlockSource f \<and> bf_chainId f = chainId
          \<and> isBlockFilterMatched f (it_block d) \<longrightarrow>
          (\<exists>e \<in> set evs. re_sourceIndex e = k
              \<and> re_checkpoint e = blockCheckpoint lib (it_block d) f)"
  proof (intro allI impI)
    fix k f
    assume k: "k < length srcs" and a: "srcs ! k = BlockSource f \<and> bf_chainId f = chainId
          \<and> isBlockFilterMatched f (it_block d)"
    from eventsFrom_block_present[OF raw k] a
    have "blockFilterEvent lib d (0 + k) f \<in> set evs" using s by simp
    moreover have "re_sourceIndex (blockFilterEvent lib d (0 + k) f) = k"
      "re_checkpoint (blockFilterEvent lib d (0 + k) f) = blockCheckpoint lib (it_block d) f"
      by (simp_all add: blockFilterEvent_def blockCheckpoint_def)
    ultimately show "\<exists>e \<in> set evs. re_sourceIndex e = k
              \<and> re_checkpoint e = blockCheckpoint lib (it_block d) f" by blast
  qed
  ultimately show ?thesis by blast
qed

theorem buildEvents_sorted_witness:
  "\<exists>evs. buildEvents exLib exSources exItemTx (\<lambda>f. {}) (\<lambda>f. {}) 1 = Inr evs
     \<and> map re_sourceIndex evs = [1, 0]
     \<and> map re_checkpoint evs = [''120'', ''950'']
     \<and> sorted (map re_checkpoint evs)
     \<and> blockCheckpoint exLib (it_block exItemTx) exBlockFilter = ''950''"
proof -
  have b: "buildEvents exLib exSources exItemTx (\<lambda>f. {}) (\<lambda>f. {}) 1
      = Inr [transactionEvent exLib exItemTx 1 exFromFilter exTxPlain,
             blockFilterEvent exLib exItemTx 0 exBlockFilter]"
    by (simp add: buildEvents_def sortEvents_def compareFn_def isBlockFilterMatched_def
        isTransactionFilterMatched_def truthy_def inRange_def toLowerCase_def lowerChar_def
        transactionEvent_def blockFilterEvent_def ex9_defs ex_defs)
  have c: "map re_checkpoint [transactionEvent exLib exItemTx 1 exFromFilter exTxPlain,
             blockFilterEvent exLib exItemTx 0 exBlockFilter] = [''120'', ''950'']"
    by (simp add: transactionEvent_def blockFilterEvent_def ex9_defs ex_defs)
  have i: "map re_sourceIndex [transactionEvent exLib exItemTx 1 exFromFilter exTxPlain,
             blockFilterEvent exLib exItemTx 0 exBlockFilter] = [1, 0]"
    by (simp add: transactionEvent_def blockFilterEvent_def)
  have k: "blockCheckpoint exLib (it_block exItemTx) exBlockFilter = ''950''"
    by (simp add: blockCheckpoint_def ex9_defs ex_defs)
  from buildEvents_sorted [OF b]
  have srt: "sorted (map re_checkpoint [transactionEvent exLib exItemTx 1 exFromFilter exTxPlain,
             blockFilterEvent exLib exItemTx 0 exBlockFilter])" by (rule conjunct1)
  show ?thesis
    by (rule exI[of _ "[transactionEvent exLib exItemTx 1 exFromFilter exTxPlain,
             blockFilterEvent exLib exItemTx 0 exBlockFilter]"]) (intro conjI b c i k srt)
qed

end
